theory Spec2Isabelle
  imports Main "HOL-Library.Word"
begin

unbundle bit_operations_syntax

section \<open>Hunt dispatcher of flows/hunts.go\<close>

text \<open>
  A shallow embedding of \<^verbatim>\<open>src/flows/hunts.go\<close>: the in-memory mirror of the hunt
  table, the client scheduler, the result triage and the hunt API.  Go's \<^verbatim>\<open>uint64\<close>
  is \<open>64 word\<close>, so every counter and every time difference wraps as the code's does.
  A Go \<^verbatim>\<open>(value, error)\<close> result is a sum with \<open>Inl\<close> for the error, a bare
  \<^verbatim>\<open>error\<close> result is an \<open>error option\<close>.  A function that may spin for ever
  returns an \<open>option\<close>, \<open>None\<close> when it does not return.  Logging is left out, as are
  \<^verbatim>\<open>ListHuntClients\<close> and the \<^verbatim>\<open>HuntRunnerFlow\<close>, about which nothing is proved
  here.
\<close>

subsection \<open>Messages\<close>

type_synonym uint64 = "64 word"

datatype Hunt_State = Hunt_UNSET | Hunt_PAUSED | Hunt_RUNNING | Hunt_STOPPED | Hunt_ARCHIVED

datatype FlowContext_State =
  FlowContext_UNSET | FlowContext_RUNNING | FlowContext_TERMINATED | FlowContext_ERROR

datatype HuntInfo_State = HuntInfo_UNSET | HuntInfo_ERROR

text \<open>
  A packed \<^verbatim>\<open>any.Any\<close>.  The code unpacks one only as \<^verbatim>\<open>ArtifactCollectorArgs\<close>,
  whose \<^verbatim>\<open>Artifacts\<close> field is a pointer (\<open>None\<close> is nil) to a message holding the
  names; every other payload is opaque here.
\<close>

datatype Any = Any_ArtifactCollectorArgs "string list option" | Any_Other string

record FlowRunnerArgs =
  Args_ClientId :: string
  Args_FlowName :: string
  Args_Creator :: string
  Args_Args :: "Any option"

record FlowContext =
  Ctx_CreateTime :: uint64
  Ctx_Backtrace :: string
  Ctx_State :: FlowContext_State
  Ctx_TotalResults :: uint64

record HuntInfo =
  Info_HuntId :: string
  Info_ClientId :: string
  Info_FlowId :: string
  Info_StartRequest :: "FlowRunnerArgs option"
  Info_State :: HuntInfo_State
  Info_Result :: "FlowContext option"

record Hunt =
  HuntId :: string
  CreateTime :: uint64
  Expires :: uint64
  State :: Hunt_State
  ClientRate :: uint64
  LastUnpauseTime :: uint64
  TotalClientsWhenUnpaused :: uint64
  TotalClientsScheduled :: uint64
  TotalClientsWithResults :: uint64
  TotalClientsWithErrors :: uint64
  TotalClientsWithoutResults :: uint64
  StartRequest :: "FlowRunnerArgs option"
  Artifacts :: "string list"

text \<open>The value of \<^verbatim>\<open>&api_proto.HuntInfo{}\<close> and of \<^verbatim>\<open>&api_proto.Hunt{}\<close>.\<close>

definition empty_HuntInfo :: HuntInfo where
  "empty_HuntInfo =
     \<lparr>Info_HuntId = [], Info_ClientId = [], Info_FlowId = [], Info_StartRequest = None,
      Info_State = HuntInfo_UNSET, Info_Result = None\<rparr>"

definition empty_Hunt :: Hunt where
  "empty_Hunt =
     \<lparr>HuntId = [], CreateTime = 0, Expires = 0, State = Hunt_UNSET, ClientRate = 0,
      LastUnpauseTime = 0, TotalClientsWhenUnpaused = 0, TotalClientsScheduled = 0,
      TotalClientsWithResults = 0, TotalClientsWithErrors = 0,
      TotalClientsWithoutResults = 0, StartRequest = None, Artifacts = []\<rparr>"

subsection \<open>Errors\<close>

datatype store_call = Call_ListChildren | Call_GetSubject | Call_SetSubject | Call_DeleteSubject

text \<open>
  \<open>ErrorsNew\<close> is \<^verbatim>\<open>errors.New(msg)\<close>, built by the code itself; the other errors
  come from the collaborators (\<^verbatim>\<open>datastore.GetDB\<close>, the datastore's four calls, the
  RPC, \<^verbatim>\<open>ptypes.MarshalAny\<close>); \<open>NilPointerPanic\<close> is the run-time panic of a field
  read through a nil pointer.
\<close>

datatype error =
    ErrorsNew string
  | GetDBError
  | DatastoreError store_call string
  | RPCError string
  | MarshalError
  | NilPointerPanic

subsection \<open>The datastore\<close>

datatype subject = HuntSubject Hunt | HuntInfoSubject HuntInfo

datatype store_op =
    is_OpList: OpList string uint64 uint64
  | is_OpGet: OpGet string
  | is_OpSet: OpSet string subject
  | is_OpDelete: OpDelete string

text \<open>
  Modelled from the spec: the datastore package is not under \<^verbatim>\<open>src/\<close>.  The spec's
  store contract is four calls on paths, each succeeding or failing by itself:
  list the children under a path prefix with offset and limit, read, write and delete
  the object at a path.  The objects are an association list, so that listing has an
  order; \<open>list_fail\<close>, \<open>get_fail\<close>, \<open>set_fail\<close> and \<open>delete_fail\<close> are the paths at
  which the respective call fails; \<open>oplog\<close> records every call issued, oldest first.
\<close>

record datastore =
  subjects :: "(string \<times> subject) list"
  list_fail :: "string list"
  get_fail :: "string list"
  set_fail :: "string list"
  delete_fail :: "string list"
  oplog :: "store_op list"

definition issue :: "store_op \<Rightarrow> datastore \<Rightarrow> datastore" where
  "issue c db = db\<lparr>oplog := oplog db @ [c]\<rparr>"

text \<open>A child of \<open>urn\<close> is a path \<open>urn/name\<close> with a non-empty name free of slashes.\<close>

definition is_child :: "string \<Rightarrow> string \<Rightarrow> bool" where
  "is_child urn p =
     (take (length urn + 1) p = urn @ ''/'' \<and>
      drop (length urn + 1) p \<noteq> [] \<and>
      CHR ''/'' \<notin> set (drop (length urn + 1) p))"

definition children :: "datastore \<Rightarrow> string \<Rightarrow> string list" where
  "children db urn = filter (is_child urn) (map fst (subjects db))"

definition ListChildren ::
  "datastore \<Rightarrow> string \<Rightarrow> uint64 \<Rightarrow> uint64 \<Rightarrow> (error + string list) \<times> datastore" where
  "ListChildren db urn offset limit =
     (if urn \<in> set (list_fail db)
      then (Inl (DatastoreError Call_ListChildren urn), issue (OpList urn offset limit) db)
      else (Inr (take (unat limit) (drop (unat offset) (children db urn))),
            issue (OpList urn offset limit) db))"

text \<open>
  \<^verbatim>\<open>GetSubject(config, urn, message)\<close> fills the caller's message.  It is used at the
  two message types; a path holding nothing, or an object of the other type, is a failed
  read, and a failed read leaves the caller's message as it was.
\<close>

definition GetSubject_Hunt :: "datastore \<Rightarrow> string \<Rightarrow> (error + Hunt) \<times> datastore" where
  "GetSubject_Hunt db urn =
     (if urn \<in> set (get_fail db)
      then (Inl (DatastoreError Call_GetSubject urn), issue (OpGet urn) db)
      else (case map_of (subjects db) urn of
              Some (HuntSubject h) \<Rightarrow> (Inr h, issue (OpGet urn) db)
            | _ \<Rightarrow> (Inl (DatastoreError Call_GetSubject urn), issue (OpGet urn) db)))"

definition GetSubject_HuntInfo :: "datastore \<Rightarrow> string \<Rightarrow> (error + HuntInfo) \<times> datastore" where
  "GetSubject_HuntInfo db urn =
     (if urn \<in> set (get_fail db)
      then (Inl (DatastoreError Call_GetSubject urn), issue (OpGet urn) db)
      else (case map_of (subjects db) urn of
              Some (HuntInfoSubject i) \<Rightarrow> (Inr i, issue (OpGet urn) db)
            | _ \<Rightarrow> (Inl (DatastoreError Call_GetSubject urn), issue (OpGet urn) db)))"

text \<open>A write replaces the object at the path where it stands, or appends it.\<close>

fun put :: "string \<Rightarrow> subject \<Rightarrow> (string \<times> subject) list \<Rightarrow> (string \<times> subject) list" where
  "put k v [] = [(k, v)]"
| "put k v (p # ps) = (if fst p = k then (k, v) # ps else p # put k v ps)"

definition SetSubject :: "datastore \<Rightarrow> string \<Rightarrow> subject \<Rightarrow> error option \<times> datastore" where
  "SetSubject db urn s =
     (if urn \<in> set (set_fail db)
      then (Some (DatastoreError Call_SetSubject urn), issue (OpSet urn s) db)
      else (None, issue (OpSet urn s) (db\<lparr>subjects := put urn s (subjects db)\<rparr>)))"

definition DeleteSubject :: "datastore \<Rightarrow> string \<Rightarrow> error option \<times> datastore" where
  "DeleteSubject db urn =
     (if urn \<in> set (delete_fail db)
      then (Some (DatastoreError Call_DeleteSubject urn), issue (OpDelete urn) db)
      else (None, issue (OpDelete urn)
                    (db\<lparr>subjects := filter (\<lambda>p. fst p \<noteq> urn) (subjects db)\<rparr>)))"

subsection \<open>Configuration, clock and the other collaborators\<close>

text \<open>
  \<^verbatim>\<open>datastore.GetDB(config_obj)\<close> is not under \<^verbatim>\<open>src/\<close>; every function of the file
  calls it first and returns its error.  Its outcome depends on the configuration only
  and is taken as a field of the configuration (\<open>None\<close>: a datastore is there).
\<close>

record Config =
  GetDB_error :: "error option"

text \<open>
  The configuration is passed by pointer; the published empty mirror holds a nil one
  (\<open>None\<close>), and naming the datastore of a nil configuration reads a field through
  nil.  No function of the file does that.
\<close>

definition GetDB :: "Config option \<Rightarrow> error option" where
  "GetDB config_obj =
     (case config_obj of None \<Rightarrow> Some NilPointerPanic | Some c \<Rightarrow> GetDB_error c)"

text \<open>
  What one call reads from outside the datastore: the clock
  (\<^verbatim>\<open>time.Now().UnixNano()\<close>, an \<^verbatim>\<open>int64\<close> held in a 64-bit word and read with
  \<open>sint\<close>; one reading serves the whole call), the answer of the \<^verbatim>\<open>LaunchFlow\<close> RPC
  to a request (the flow id, or an error), the outcome of \<^verbatim>\<open>ptypes.MarshalAny\<close>
  on a \<^verbatim>\<open>HuntInfo\<close>, and the generic reader \<^verbatim>\<open>GetFlowResults\<close> of a flow's result
  items (client id, flow id, first item, count), whose items are opaque here.
\<close>

record env =
  UnixNano :: "64 word"
  LaunchFlow :: "FlowRunnerArgs \<Rightarrow> error + string"
  MarshalAny :: "HuntInfo \<Rightarrow> error + Any"
  GetFlowResults :: "string \<Rightarrow> string \<Rightarrow> uint64 \<Rightarrow> uint64 \<Rightarrow> error + string list"

text \<open>Go's \<^verbatim>\<open>/\<close> on signed integers truncates towards zero.\<close>

definition quo :: "int \<Rightarrow> int \<Rightarrow> int" where
  "quo a b = (if 0 \<le> a then a div b else - ((- a) div b))"

text \<open>\<^verbatim>\<open>uint64(time.Now().UTC().UnixNano() / 1000)\<close>\<close>

definition now_micros :: "env \<Rightarrow> uint64" where
  "now_micros e = word_of_int (quo (sint (UnixNano e)) 1000)"

subsection \<open>Hunt ids\<close>

text \<open>
  Modelled from the spec: \<^verbatim>\<open>urns.BuildURN\<close> and \<^verbatim>\<open>constants.HUNT_PREFIX\<close> are not
  under \<^verbatim>\<open>src/\<close>.  The spec gives the id format \<^verbatim>\<open>hunts/H.<hex>\<close>: the two
  components joined by a slash, the second starting with \<^verbatim>\<open>H.\<close>.
\<close>

definition HUNT_PREFIX :: string where
  "HUNT_PREFIX = ''H.''"

definition BuildURN :: "string \<Rightarrow> string \<Rightarrow> string" where
  "BuildURN a b = a @ ''/'' @ b"

text \<open>\<^verbatim>\<open>encoding/hex\<close>: two digits of \<^verbatim>\<open>hextable\<close> per source byte, high nibble first,
  written over the front of \<open>dst\<close>.\<close>

definition hextable :: string where
  "hextable = ''0123456789abcdef''"

definition hex_Encode :: "char list \<Rightarrow> 8 word list \<Rightarrow> char list" where
  "hex_Encode dst src =
     concat (map (\<lambda>v. [hextable ! unat (drop_bit 4 v), hextable ! unat (v AND 0x0f)]) src)
       @ drop (2 * length src) dst"

text \<open>
  \<^verbatim>\<open>rand.Read(buf)\<close> overwrites the front of \<open>buf\<close> with the bytes the generator
  delivers (\<open>rnd\<close>; fewer than \<open>length buf\<close> when it fails, and the code ignores that).
\<close>

definition rand_Read :: "8 word list \<Rightarrow> 8 word list \<Rightarrow> 8 word list" where
  "rand_Read rnd buf = take (length buf) rnd @ drop (length rnd) buf"

definition GetNewHuntId :: "8 word list \<Rightarrow> string" where
  "GetNewHuntId rnd =
     (let result = replicate 8 (CHR 0x00);
          buf = replicate 4 (0 :: 8 word);
          buf = rand_Read rnd buf;
          result = hex_Encode result buf
      in BuildURN ''hunts'' (HUNT_PREFIX @ result))"


subsection \<open>Result triage: \<^verbatim>\<open>_SortResultsForHunt\<close>\<close>

text \<open>
  The state of the function while it runs: the hunt (mutated through its pointer), the
  datastore, and the three named results \<^verbatim>\<open>modified\<close>, \<^verbatim>\<open>result_count\<close> and
  \<^verbatim>\<open>err\<close>.
\<close>

record sort_state =
  ss_hunt :: Hunt
  ss_db :: datastore
  ss_err :: "error option"
  ss_modified :: bool
  ss_result_count :: int

text \<open>The end of the loop body, from \<^verbatim>\<open>db.SetSubject(destination, summary)\<close> on.\<close>

definition SortResults_file :: "string \<Rightarrow> HuntInfo \<Rightarrow> sort_state \<Rightarrow> sort_state" where
  "SortResults_file destination summary s =
     (case SetSubject (ss_db s) destination (HuntInfoSubject summary) of
        (derr, db') \<Rightarrow>
          s\<lparr>ss_db := db',
            ss_err := (if derr \<noteq> None then derr else ss_err s),
            ss_modified := True,
            ss_result_count := ss_result_count s + 1\<rparr>)"

text \<open>
  One round of \<^verbatim>\<open>for _, urn := range urns\<close>.  In the two later branches the result
  is not nil (the first test took every nil one), so the field reads cannot panic.
\<close>

definition SortResults_body :: "string \<Rightarrow> sort_state \<Rightarrow> sort_state" where
  "SortResults_body urn s =
     (case GetSubject_HuntInfo (ss_db s) urn of
        (r, db1) \<Rightarrow>
          let derr = (case r of Inl e \<Rightarrow> Some e | Inr _ \<Rightarrow> None);
              summary = (case r of Inl _ \<Rightarrow> empty_HuntInfo | Inr i \<Rightarrow> i);
              hunt = ss_hunt s
          in if derr \<noteq> None \<or>
                (case Info_Result summary of
                   None \<Rightarrow> True
                 | Some res \<Rightarrow> Ctx_State res = FlowContext_ERROR)
             then SortResults_file (HuntId hunt @ ''/errors/'' @ Info_ClientId summary) summary
                    (s\<lparr>ss_hunt := hunt\<lparr>TotalClientsWithErrors :=
                                          TotalClientsWithErrors hunt + 1\<rparr>,
                       ss_db := db1, ss_err := derr\<rparr>)
             else (case Info_Result summary of
                     None \<Rightarrow> s\<lparr>ss_db := db1\<rparr>
                   | Some res \<Rightarrow>
                       if Ctx_TotalResults res > 0
                       then SortResults_file
                              (HuntId hunt @ ''/results/'' @ Info_ClientId summary) summary
                              (s\<lparr>ss_hunt := hunt\<lparr>TotalClientsWithResults :=
                                                    TotalClientsWithResults hunt + 1\<rparr>,
                                 ss_db := db1\<rparr>)
                       else if Ctx_TotalResults res = 0
                       then SortResults_file
                              (HuntId hunt @ ''/no_results/'' @ Info_ClientId summary) summary
                              (s\<lparr>ss_hunt := hunt\<lparr>TotalClientsWithoutResults :=
                                                    TotalClientsWithoutResults hunt + 1\<rparr>,
                                 ss_db := db1\<rparr>)
                       else s\<lparr>ss_db := db1\<rparr>))"

text \<open>One round of the deferred removal: the error of a failed delete replaces \<open>err\<close>.\<close>

definition delete_body :: "string \<Rightarrow> datastore \<times> error option \<Rightarrow> datastore \<times> error option" where
  "delete_body urn st =
     (case DeleteSubject (fst st) urn of
        (derr, db') \<Rightarrow> (db', if derr \<noteq> None then derr else snd st))"

text \<open>The results are \<^verbatim>\<open>(modified, result_count, err)\<close>, with the hunt and the store.\<close>

definition SortResultsForHunt ::
  "Config option \<Rightarrow> Hunt \<Rightarrow> datastore \<Rightarrow> Hunt \<times> bool \<times> int \<times> error option \<times> datastore" where
  "SortResultsForHunt config_obj hunt db =
     (case GetDB config_obj of
        Some err \<Rightarrow> (hunt, False, 0, Some err, db)
      | None \<Rightarrow>
          (case ListChildren db (HuntId hunt @ ''/completed'') 0 100 of
             (Inl err, db1) \<Rightarrow> (hunt, False, 0, Some err, db1)
           | (Inr urns, db1) \<Rightarrow>
               if length urns = 0 then (hunt, False, 0, None, db1)
               else
                 let s = fold SortResults_body urns
                           \<lparr>ss_hunt = hunt, ss_db = db1, ss_err = None,
                            ss_modified = False, ss_result_count = 0\<rparr>;
                     d = fold delete_body urns (ss_db s, ss_err s)
                 in (ss_hunt s, ss_modified s, ss_result_count s, snd d, fst d)))"

subsection \<open>Client scheduler: \<^verbatim>\<open>_ScheduleClientsForHunt\<close>\<close>

text \<open>\<^verbatim>\<open>fmt.Sprintf("%v", err)\<close>: the text of an error.\<close>

fun error_text :: "error \<Rightarrow> string" where
  "error_text (ErrorsNew m) = m"
| "error_text GetDBError = ''no datastore''"
| "error_text (DatastoreError c p) = ''datastore: '' @ p"
| "error_text (RPCError m) = m"
| "error_text MarshalError = ''marshal''"
| "error_text NilPointerPanic = ''nil pointer dereference''"

record sched_state =
  sc_hunt :: Hunt
  sc_modified :: bool
  sc_db :: datastore

text \<open>
  One round of the launch loop.  The \<open>err\<close> of the loop is a variable of the block
  (declared by \<^verbatim>\<open>:=\<close> inside it), so the outcome of the two writes is dropped.
\<close>

definition Schedule_body :: "env \<Rightarrow> string \<Rightarrow> sched_state \<Rightarrow> sched_state" where
  "Schedule_body e urn s =
     (case GetSubject_HuntInfo (sc_db s) urn of
        (Inl err, db1) \<Rightarrow> s\<lparr>sc_db := db1\<rparr>
      | (Inr summary, db1) \<Rightarrow>
          (case MarshalAny e summary of
             Inl err \<Rightarrow> s\<lparr>sc_db := db1\<rparr>
           | Inr flow_args \<Rightarrow>
               let hunt = sc_hunt s;
                   flow_runner_args =
                     \<lparr>Args_ClientId = Info_ClientId summary,
                      Args_FlowName = ''HuntRunnerFlow'',
                      Args_Creator = [],
                      Args_Args = Some flow_args\<rparr>
               in (case LaunchFlow e flow_runner_args of
                     Inl err \<Rightarrow>
                       let summary = summary
                             \<lparr>Info_State := HuntInfo_ERROR,
                              Info_Result := Some
                                \<lparr>Ctx_CreateTime = now_micros e,
                                 Ctx_Backtrace = ''HuntDispatcher: '' @ error_text err,
                                 Ctx_State = FlowContext_UNSET,
                                 Ctx_TotalResults = 0\<rparr>\<rparr>;
                           hunt = hunt\<lparr>TotalClientsWithErrors :=
                                         TotalClientsWithErrors hunt + 1\<rparr>;
                           error_urn = HuntId hunt @ ''/errors/'' @ Info_ClientId summary
                       in s\<lparr>sc_hunt := hunt, sc_modified := True,
                            sc_db := snd (SetSubject db1 error_urn (HuntInfoSubject summary))\<rparr>
                   | Inr flow_id \<Rightarrow>
                       let summary = summary\<lparr>Info_FlowId := flow_id\<rparr>;
                           running_urn = HuntId hunt @ ''/running/'' @ Info_ClientId summary
                       in s\<lparr>sc_hunt := hunt\<lparr>TotalClientsScheduled :=
                                                TotalClientsScheduled hunt + 1\<rparr>,
                            sc_modified := True,
                            sc_db := snd (SetSubject db1 running_urn
                                            (HuntInfoSubject summary))\<rparr>)))"

text \<open>
  The results are \<^verbatim>\<open>(modified, err)\<close>, with the hunt and the store.  The deferred
  removal assigns the block's \<open>err\<close>, not the named result, so its error is dropped too.
\<close>

definition ScheduleClientsForHunt ::
  "env \<Rightarrow> Config option \<Rightarrow> Hunt \<Rightarrow> datastore \<Rightarrow> Hunt \<times> bool \<times> error option \<times> datastore" where
  "ScheduleClientsForHunt e config_obj hunt db =
     (case GetDB config_obj of
        Some err \<Rightarrow> (hunt, False, Some err, db)
      | None \<Rightarrow>
          let client_rate = ClientRate hunt;
              client_rate = (if client_rate = 0 then 20 else client_rate);
              last_unpause_time = LastUnpauseTime hunt;
              last_unpause_time =
                (if last_unpause_time = 0 then CreateTime hunt else last_unpause_time);
              now = now_micros e;
              seconds_since_unpause = (now - last_unpause_time) div 1000000;
              expected_clients =
                client_rate * seconds_since_unpause div 60 + TotalClientsWhenUnpaused hunt
          in if TotalClientsScheduled hunt < expected_clients
             then
               let clients_to_get = expected_clients - TotalClientsScheduled hunt;
                   pending_urn = HuntId hunt @ ''/pending''
               in (case ListChildren db pending_urn 0 clients_to_get of
                     (Inl err, db1) \<Rightarrow> (hunt, False, Some err, db1)
                   | (Inr urns, db1) \<Rightarrow>
                       if length urns = 0 then (hunt, False, None, db1)
                       else
                         let s = fold (Schedule_body e) urns
                                   \<lparr>sc_hunt = hunt, sc_modified = False, sc_db = db1\<rparr>;
                             d = fold delete_body urns (sc_db s, None)
                         in (sc_hunt s, sc_modified s, None, fst d))
             else (hunt, False, None, db))"

subsection \<open>The mirror and its \<^verbatim>\<open>Update\<close>\<close>

record HuntDispatcher =
  config_obj :: "Config option"
  last_timestamp :: uint64
  hunts :: "Hunt list"

text \<open>\<^verbatim>\<open>&HuntDispatcher{}\<close>\<close>

definition empty_HuntDispatcher :: HuntDispatcher where
  "empty_HuntDispatcher = \<lparr>config_obj = None, last_timestamp = 0, hunts = []\<rparr>"

definition GetApplicableHunts :: "HuntDispatcher \<Rightarrow> uint64 \<Rightarrow> Hunt list" where
  "GetApplicableHunts self ts = filter (\<lambda>hunt. CreateTime hunt > ts) (hunts self)"

text \<open>
  The inner \<^verbatim>\<open>for { ... }\<close> of \<^verbatim>\<open>Update\<close> spins until a triage round reports no
  entry.  Nothing bounds it (a completed queue whose deletes keep failing is drained
  for ever), so not returning is the value \<open>None\<close>.
\<close>

partial_function (option) Update_spin ::
  "Config option \<Rightarrow> Hunt \<Rightarrow> bool \<Rightarrow> datastore \<Rightarrow> (Hunt \<times> bool \<times> datastore) option" where
  "Update_spin cfg hunt modified db =
     (case SortResultsForHunt cfg hunt db of
        (hunt', modified2, result_count, err, db') \<Rightarrow>
          if result_count = 0 then Some (hunt', modified, db')
          else Update_spin cfg hunt' (modified2 \<or> modified) db')"

declare Update_spin.simps [code]

text \<open>The body of \<^verbatim>\<open>for _, hunt := range self.hunts\<close>.\<close>

definition Update_hunt ::
  "env \<Rightarrow> Config option \<Rightarrow> Hunt \<Rightarrow> datastore \<Rightarrow> (Hunt \<times> datastore) option" where
  "Update_hunt e cfg hunt db =
     (if State hunt \<noteq> Hunt_RUNNING then Some (hunt, db)
      else
        (case ScheduleClientsForHunt e cfg hunt db of
           (hunt1, modified, err, db1) \<Rightarrow>
             (case Update_spin cfg hunt1 modified db1 of
                None \<Rightarrow> None
              | Some (hunt2, modified', db2) \<Rightarrow>
                  if modified'
                  then Some (hunt2, snd (SetSubject db2 (HuntId hunt2) (HuntSubject hunt2)))
                  else Some (hunt2, db2))))"

fun Update_loop ::
  "env \<Rightarrow> Config option \<Rightarrow> Hunt list \<Rightarrow> datastore \<Rightarrow> (Hunt list \<times> datastore) option" where
  "Update_loop e cfg [] db = Some ([], db)"
| "Update_loop e cfg (hunt # rest) db =
     (case Update_hunt e cfg hunt db of
        None \<Rightarrow> None
      | Some (hunt', db1) \<Rightarrow>
          (case Update_loop e cfg rest db1 of
             None \<Rightarrow> None
           | Some (rest', db2) \<Rightarrow> Some (hunt' # rest', db2)))"

text \<open>The result is the error, with the mirror (its hunts mutated) and the store.\<close>

definition Update ::
  "env \<Rightarrow> HuntDispatcher \<Rightarrow> datastore \<Rightarrow> (error option \<times> HuntDispatcher \<times> datastore) option" where
  "Update e self db =
     (case GetDB (config_obj self) of
        Some err \<Rightarrow> Some (Some err, self, db)
      | None \<Rightarrow>
          (case Update_loop e (config_obj self) (hunts self) db of
             None \<Rightarrow> None
           | Some (hs, db') \<Rightarrow> Some (None, self\<lparr>hunts := hs\<rparr>, db')))"


subsection \<open>Building and publishing the mirror\<close>

text \<open>
  Modelled from the spec: \<^verbatim>\<open>constants.HUNTS_URN\<close> is not under \<^verbatim>\<open>src/\<close>; it is the
  namespace of the hunt ids, \<^verbatim>\<open>hunts\<close> in the spec's id format.
\<close>

definition HUNTS_URN :: string where
  "HUNTS_URN = ''hunts''"

fun load_hunts ::
  "string list \<Rightarrow> Hunt list \<Rightarrow> datastore \<Rightarrow> (error + Hunt list) \<times> datastore" where
  "load_hunts [] acc db = (Inr acc, db)"
| "load_hunts (hunt_urn # rest) acc db =
     (case GetSubject_Hunt db hunt_urn of
        (Inl err, db1) \<Rightarrow> (Inl err, db1)
      | (Inr hunt_obj, db1) \<Rightarrow> load_hunts rest (acc @ [hunt_obj]) db1)"

definition NewHuntDispatcher ::
  "env \<Rightarrow> Config option \<Rightarrow> datastore \<Rightarrow> ((error + HuntDispatcher) \<times> datastore) option" where
  "NewHuntDispatcher e cfg db =
     (case GetDB cfg of
        Some err \<Rightarrow> Some (Inl err, db)
      | None \<Rightarrow>
          (case ListChildren db HUNTS_URN 0 100 of
             (Inl err, db1) \<Rightarrow> Some (Inl err, db1)
           | (Inr urns, db1) \<Rightarrow>
               (case load_hunts urns [] db1 of
                  (Inl err, db2) \<Rightarrow> Some (Inl err, db2)
                | (Inr hs, db2) \<Rightarrow>
                    (case Update e \<lparr>config_obj = cfg, last_timestamp = 0, hunts = hs\<rparr> db2 of
                       None \<Rightarrow> None
                     | Some (Some err, result, db3) \<Rightarrow> Some (Inl err, db3)
                     | Some (None, result, db3) \<Rightarrow> Some (Inr result, db3)))))"

text \<open>
  \<^verbatim>\<open>dispatch_container\<close>: the published mirror, \<open>None\<close> while the pointer is nil.  The
  two mutexes and the background goroutine that calls \<^verbatim>\<open>Refresh\<close> every ten seconds
  are outside this sequential model; each call below runs alone.
\<close>

type_synonym HuntDispatcherContainer = "HuntDispatcher option"

definition Refresh ::
  "env \<Rightarrow> Config option \<Rightarrow> HuntDispatcherContainer \<Rightarrow> datastore \<Rightarrow>
     (HuntDispatcherContainer \<times> datastore) option" where
  "Refresh e cfg self db =
     (case NewHuntDispatcher e cfg db of
        None \<Rightarrow> None
      | Some (Inl err, db') \<Rightarrow> Some (Some empty_HuntDispatcher, db')
      | Some (Inr dispatcher, db') \<Rightarrow> Some (Some dispatcher, db'))"

definition GetHuntDispatcher ::
  "env \<Rightarrow> Config option \<Rightarrow> HuntDispatcherContainer \<Rightarrow> datastore \<Rightarrow>
     ((error + HuntDispatcher) \<times> HuntDispatcherContainer \<times> datastore) option" where
  "GetHuntDispatcher e cfg c db =
     (case c of
        Some dispatcher \<Rightarrow> Some (Inr dispatcher, c, db)
      | None \<Rightarrow>
          (case NewHuntDispatcher e cfg db of
             None \<Rightarrow> None
           | Some (Inl err, db') \<Rightarrow> Some (Inl err, None, db')
           | Some (Inr dispatcher, db') \<Rightarrow> Some (Inr dispatcher, Some dispatcher, db')))"

subsection \<open>The hunt API\<close>

text \<open>
  \<^verbatim>\<open>time.Now().Add(7*24*time.Hour)\<close> is seven days of nanoseconds later.  The
  notification of the clients has no result the function looks at.
\<close>

definition CreateHunt ::
  "env \<Rightarrow> 8 word list \<Rightarrow> Config option \<Rightarrow> Hunt \<Rightarrow> HuntDispatcherContainer \<Rightarrow> datastore \<Rightarrow>
     ((error + string) \<times> HuntDispatcherContainer \<times> datastore) option" where
  "CreateHunt e rnd cfg hunt c db =
     (case GetDB cfg of
        Some err \<Rightarrow> Some (Inl err, c, db)
      | None \<Rightarrow>
          let hunt = hunt\<lparr>HuntId := GetNewHuntId rnd\<rparr>;
              hunt = hunt\<lparr>CreateTime := now_micros e\<rparr>;
              hunt = hunt\<lparr>LastUnpauseTime := CreateTime hunt\<rparr>;
              hunt = (if Expires hunt < CreateTime hunt
                      then hunt\<lparr>Expires :=
                             word_of_int (quo (sint (UnixNano e + 604800000000000)) 1000)\<rparr>
                      else hunt);
              hunt = (if State hunt = Hunt_UNSET then hunt\<lparr>State := Hunt_PAUSED\<rparr> else hunt)
          in (case SetSubject db (HuntId hunt) (HuntSubject hunt) of
                (Some err, db1) \<Rightarrow> Some (Inl err, c, db1)
              | (None, db1) \<Rightarrow>
                  (case Refresh e cfg c db1 of
                     None \<Rightarrow> None
                   | Some (c', db2) \<Rightarrow> Some (Inr (HuntId hunt), c', db2))))"

text \<open>The loop of \<^verbatim>\<open>ListHunts\<close>; \<open>idx\<close> is the index of the head of the list.\<close>

fun ListHunts_loop :: "uint64 \<Rightarrow> uint64 \<Rightarrow> nat \<Rightarrow> Hunt list \<Rightarrow> Hunt list \<Rightarrow> Hunt list" where
  "ListHunts_loop offset count idx [] items = items"
| "ListHunts_loop offset count idx (hunt # rest) items =
     (if (of_nat idx :: uint64) < offset
      then ListHunts_loop offset count (idx + 1) rest items
      else if (of_nat idx :: uint64) \<ge> offset + count then items
      else ListHunts_loop offset count (idx + 1) rest (items @ [hunt]))"

definition ListHunts ::
  "env \<Rightarrow> Config option \<Rightarrow> uint64 \<Rightarrow> uint64 \<Rightarrow> HuntDispatcherContainer \<Rightarrow> datastore \<Rightarrow>
     ((error + Hunt list) \<times> HuntDispatcherContainer \<times> datastore) option" where
  "ListHunts e cfg offset count c db =
     (case GetHuntDispatcher e cfg c db of
        None \<Rightarrow> None
      | Some (Inl err, c', db') \<Rightarrow> Some (Inl err, c', db')
      | Some (Inr dispatcher, c', db') \<Rightarrow>
          Some (Inr (ListHunts_loop offset count 0 (GetApplicableHunts dispatcher 0) []),
                c', db'))"

text \<open>
  Go's \<^verbatim>\<open>path.Base\<close>: the last element of the path, after the trailing slashes are
  dropped; \<^verbatim>\<open>.\<close> for the empty path and \<^verbatim>\<open>/\<close> for a path of slashes only.
\<close>

definition path_Base :: "string \<Rightarrow> string" where
  "path_Base p =
     (if p = [] then ''.''
      else
        let p1 = rev (dropWhile (\<lambda>c. c = CHR ''/'') (rev p));
            p2 = rev (takeWhile (\<lambda>c. c \<noteq> CHR ''/'') (rev p1))
        in if p2 = [] then ''/'' else p2)"

text \<open>
  \<^verbatim>\<open>FindCollectedArtifacts\<close> writes \<^verbatim>\<open>hunt.Artifacts\<close>.  It reads
  \<^verbatim>\<open>hunt.StartRequest.FlowName\<close> and \<^verbatim>\<open>flow_args.Artifacts.Names\<close> through pointers
  that may be nil.  \<^verbatim>\<open>constants.FileFinderArtifactName\<close> is not under \<^verbatim>\<open>src/\<close> and is
  a parameter.
\<close>

definition FindCollectedArtifacts :: "string \<Rightarrow> Hunt \<Rightarrow> error + Hunt" where
  "FindCollectedArtifacts FileFinderArtifactName hunt =
     (case StartRequest hunt of
        None \<Rightarrow> Inl NilPointerPanic
      | Some req \<Rightarrow>
          if Args_FlowName req = ''ArtifactCollector''
          then (case Args_Args req of
                  Some (Any_ArtifactCollectorArgs artifacts) \<Rightarrow>
                    (case artifacts of
                       None \<Rightarrow> Inl NilPointerPanic
                     | Some names \<Rightarrow> Inr (hunt\<lparr>Artifacts := names\<rparr>))
                | _ \<Rightarrow> Inr hunt)
          else if Args_FlowName req = ''FileFinder''
          then Inr (hunt\<lparr>Artifacts := [FileFinderArtifactName]\<rparr>)
          else Inr hunt)"

text \<open>
  The loop of \<^verbatim>\<open>GetHunt\<close> over \<^verbatim>\<open>GetApplicableHunts(0)\<close>, written over the mirror's
  own list (a hunt that is not applicable is passed over) so that the write of
  \<^verbatim>\<open>FindCollectedArtifacts\<close> through the hunt's pointer stays in the mirror.
\<close>

fun GetHunt_loop :: "string \<Rightarrow> string \<Rightarrow> Hunt list \<Rightarrow> (error + Hunt) \<times> Hunt list" where
  "GetHunt_loop ff hunt_id [] = (Inl (ErrorsNew ''Not found''), [])"
| "GetHunt_loop ff hunt_id (hunt # rest) =
     (if CreateTime hunt > 0 \<and> path_Base (HuntId hunt) = hunt_id
      then (case FindCollectedArtifacts ff hunt of
              Inl err \<Rightarrow> (Inl err, hunt # rest)
            | Inr hunt' \<Rightarrow> (Inr hunt', hunt' # rest))
      else (case GetHunt_loop ff hunt_id rest of (r, rest') \<Rightarrow> (r, hunt # rest')))"

definition GetHunt ::
  "env \<Rightarrow> string \<Rightarrow> Config option \<Rightarrow> string \<Rightarrow> HuntDispatcherContainer \<Rightarrow> datastore \<Rightarrow>
     ((error + Hunt) \<times> HuntDispatcherContainer \<times> datastore) option" where
  "GetHunt e ff cfg hunt_id c db =
     (case GetHuntDispatcher e cfg c db of
        None \<Rightarrow> None
      | Some (Inl err, c', db') \<Rightarrow> Some (Inl err, c', db')
      | Some (Inr dispatcher, c', db') \<Rightarrow>
          (case GetHunt_loop ff hunt_id (hunts dispatcher) of
             (r, hs) \<Rightarrow> Some (r, Some (dispatcher\<lparr>hunts := hs\<rparr>), db')))"

definition strings_HasPrefix :: "string \<Rightarrow> string \<Rightarrow> bool" where
  "strings_HasPrefix s prefix = (take (length prefix) s = prefix)"

fun GetHuntInfos_loop :: "string list \<Rightarrow> HuntInfo list \<Rightarrow> datastore \<Rightarrow> HuntInfo list \<times> datastore" where
  "GetHuntInfos_loop [] items db = (items, db)"
| "GetHuntInfos_loop (urn # rest) items db =
     (case GetSubject_HuntInfo db urn of
        (Inl err, db1) \<Rightarrow> GetHuntInfos_loop rest items db1
      | (Inr summary, db1) \<Rightarrow> GetHuntInfos_loop rest (items @ [summary]) db1)"

text \<open>The request is given by its fields \<^verbatim>\<open>HuntId\<close>, \<^verbatim>\<open>Offset\<close> and \<^verbatim>\<open>Count\<close>.\<close>

definition GetHuntInfos ::
  "Config option \<Rightarrow> string \<Rightarrow> uint64 \<Rightarrow> uint64 \<Rightarrow> datastore \<Rightarrow>
     (error + HuntInfo list) \<times> datastore" where
  "GetHuntInfos cfg in_HuntId in_Offset in_Count db =
     (case GetDB cfg of
        Some err \<Rightarrow> (Inl err, db)
      | None \<Rightarrow>
          let in_Count = (if in_Count = 0 then 50 else in_Count)
          in if \<not> strings_HasPrefix in_HuntId ''aff4:/hunts/H.''
             then (Inl (ErrorsNew ''Invalid hunt id''), db)
             else (case ListChildren db (in_HuntId @ ''/results'') in_Offset in_Count of
                     (Inl err, db1) \<Rightarrow> (Inl err, db1)
                   | (Inr client_urns, db1) \<Rightarrow>
                       (case GetHuntInfos_loop client_urns [] db1 of
                          (items, db2) \<Rightarrow> (Inr items, db2))))"

text \<open>
  The inner loop of \<^verbatim>\<open>GetHuntResults\<close> over one page of urns.  Its state is
  \<open>offset\<close>, the items gathered and the store; the first component of the result is the
  function's result when the loop returned from it, and \<open>None\<close> when the loop ran out.
  \<^verbatim>\<open>hunt_info.Result.TotalResults\<close> reads through a pointer that may be nil.
\<close>

fun GetHuntResults_loop ::
  "env \<Rightarrow> uint64 \<Rightarrow> uint64 \<Rightarrow> string list \<Rightarrow> uint64 \<Rightarrow> string list \<Rightarrow> datastore \<Rightarrow>
     (error + string list) option \<times> uint64 \<times> string list \<times> datastore" where
  "GetHuntResults_loop e in_Offset in_Count [] offset items db = (None, offset, items, db)"
| "GetHuntResults_loop e in_Offset in_Count (urn # rest) offset items db =
     (case GetSubject_HuntInfo db urn of
        (Inl err, db1) \<Rightarrow> GetHuntResults_loop e in_Offset in_Count rest offset items db1
      | (Inr hunt_info, db1) \<Rightarrow>
          (case Info_Result hunt_info of
             None \<Rightarrow> (Some (Inl NilPointerPanic), offset, items, db1)
           | Some res \<Rightarrow>
               if offset + Ctx_TotalResults res < in_Offset
               then GetHuntResults_loop e in_Offset in_Count rest
                      (offset + Ctx_TotalResults res) items db1
               else
                 let first_result = in_Offset - offset;
                     first_result = (if first_result < 0 then 0 else first_result);
                     count = in_Count - offset
                 in (case GetFlowResults e (Info_ClientId hunt_info) (Info_FlowId hunt_info)
                            first_result count of
                       Inl err \<Rightarrow> (Some (Inl err), offset, items, db1)
                     | Inr flow_items \<Rightarrow>
                         if (of_nat (length (items @ flow_items)) :: uint64) \<ge> in_Count
                         then (Some (Inr (items @ flow_items)),
                               offset + of_nat (length flow_items), items @ flow_items, db1)
                         else GetHuntResults_loop e in_Offset in_Count rest
                                (offset + of_nat (length flow_items)) (items @ flow_items) db1)))"

text \<open>
  The outer \<^verbatim>\<open>for { ... }\<close>, one page of fifty per round, until a page is empty.  It
  is written as the code has it, with no bound of its own.
\<close>

partial_function (option) GetHuntResults_pages ::
  "env \<Rightarrow> string \<Rightarrow> uint64 \<Rightarrow> uint64 \<Rightarrow> uint64 \<Rightarrow> uint64 \<Rightarrow> string list \<Rightarrow> datastore \<Rightarrow>
     ((error + string list) \<times> datastore) option" where
  "GetHuntResults_pages e in_HuntId in_Offset in_Count children_offset offset items db =
     (case ListChildren db (in_HuntId @ ''/results'') children_offset 50 of
        (Inl err, db1) \<Rightarrow> Some (Inl err, db1)
      | (Inr client_urns, db1) \<Rightarrow>
          if length client_urns = 0 then Some (Inr items, db1)
          else
            (case GetHuntResults_loop e in_Offset in_Count client_urns offset items db1 of
               (Some r, offset', items', db2) \<Rightarrow> Some (r, db2)
             | (None, offset', items', db2) \<Rightarrow>
                 GetHuntResults_pages e in_HuntId in_Offset in_Count
                   (children_offset + of_nat (length client_urns)) offset' items' db2))"

declare GetHuntResults_pages.simps [code]

definition GetHuntResults ::
  "env \<Rightarrow> Config option \<Rightarrow> string \<Rightarrow> uint64 \<Rightarrow> uint64 \<Rightarrow> datastore \<Rightarrow>
     ((error + string list) \<times> datastore) option" where
  "GetHuntResults e cfg in_HuntId in_Offset in_Count db =
     (case GetDB cfg of
        Some err \<Rightarrow> Some (Inl err, db)
      | None \<Rightarrow>
          let in_Count = (if in_Count = 0 then 50 else in_Count)
          in if \<not> strings_HasPrefix in_HuntId ''aff4:/hunts/H.''
             then Some (Inl (ErrorsNew ''Invalid hunt id''), db)
             else GetHuntResults_pages e in_HuntId in_Offset in_Count 0 0 [] db)"

text \<open>
  \<^verbatim>\<open>ModifyHunt\<close>.  The stored hunt takes the requested state first; the test for an
  unpause reads the state after that assignment.
\<close>

definition ModifyHunt ::
  "env \<Rightarrow> Config option \<Rightarrow> Hunt \<Rightarrow> HuntDispatcherContainer \<Rightarrow> datastore \<Rightarrow>
     (error option \<times> HuntDispatcherContainer \<times> datastore) option" where
  "ModifyHunt e cfg hunt_modification c db =
     (case GetDB cfg of
        Some err \<Rightarrow> Some (Some err, c, db)
      | None \<Rightarrow>
          (case GetSubject_Hunt db (HuntId hunt_modification) of
             (Inl err, db1) \<Rightarrow> Some (Some err, c, db1)
           | (Inr hunt_obj, db1) \<Rightarrow>
               if State hunt_modification \<noteq> Hunt_UNSET
               then
                 let hunt_obj = hunt_obj\<lparr>State := State hunt_modification\<rparr>;
                     hunt_obj =
                       (if State hunt_obj = Hunt_PAUSED \<and>
                           State hunt_modification = Hunt_RUNNING
                        then hunt_obj\<lparr>LastUnpauseTime := now_micros e,
                                      TotalClientsWhenUnpaused :=
                                        TotalClientsScheduled hunt_obj\<rparr>
                        else hunt_obj)
                 in (case SetSubject db1 (HuntId hunt_modification) (HuntSubject hunt_obj) of
                       (Some err, db2) \<Rightarrow> Some (Some err, c, db2)
                     | (None, db2) \<Rightarrow>
                         (case Refresh e cfg c db2 of
                            None \<Rightarrow> None
                          | Some (c', db3) \<Rightarrow> Some (None, c', db3)))
               else Some (Some (ErrorsNew ''Modification not supported.''), c, db1)))"

subsection \<open>Concrete states\<close>

text \<open>
  States on which the theorems below are run.  The clock stands at 5000 seconds after
  the epoch; the RPC refuses the client \<^verbatim>\<open>C.bad\<close> and launches a flow for every other.
\<close>

definition ex_env :: env where
  "ex_env =
     \<lparr>UnixNano = 5000000000000,
      LaunchFlow = (\<lambda>a. if Args_ClientId a = ''C.bad'' then Inl (RPCError ''unavailable'')
                         else Inr (''F.'' @ Args_ClientId a)),
      MarshalAny = (\<lambda>i. Inr (Any_Other (Info_ClientId i))),
      GetFlowResults = (\<lambda>client_id flow_id first count. Inr [])\<rparr>"

definition ex_config :: "Config option" where
  "ex_config = Some \<lparr>GetDB_error = None\<rparr>"

definition ex_config_nodb :: "Config option" where
  "ex_config_nodb = Some \<lparr>GetDB_error = Some GetDBError\<rparr>"

text \<open>A paused hunt that had scheduled seven clients.\<close>

definition ex_hunt :: Hunt where
  "ex_hunt =
     empty_Hunt\<lparr>HuntId := ''hunts/H.00000001'', CreateTime := 1000000,
                 State := Hunt_PAUSED, LastUnpauseTime := 1000000,
                 TotalClientsScheduled := 7\<rparr>"

definition ex_store :: datastore where
  "ex_store =
     \<lparr>subjects = [(''hunts/H.00000001'', HuntSubject ex_hunt)],
      list_fail = [], get_fail = [], set_fail = [], delete_fail = [], oplog = []\<rparr>"

text \<open>The store of the paused hunt with two clients pending for it.\<close>

definition ex_paused_pending :: datastore where
  "ex_paused_pending =
     ex_store\<lparr>subjects :=
        [(''hunts/H.00000001'', HuntSubject ex_hunt),
         (''hunts/H.00000001/pending/C.1'',
            HuntInfoSubject (empty_HuntInfo\<lparr>Info_HuntId := ''hunts/H.00000001'',
                                            Info_ClientId := ''C.1''\<rparr>)),
         (''hunts/H.00000001/pending/C.2'',
            HuntInfoSubject (empty_HuntInfo\<lparr>Info_HuntId := ''hunts/H.00000001'',
                                            Info_ClientId := ''C.2''\<rparr>))]\<rparr>"

text \<open>
  A running hunt at 60 clients a minute, unpaused three seconds ago, with one client
  scheduled and three pending.
\<close>

definition ex_running :: Hunt where
  "ex_running =
     empty_Hunt\<lparr>HuntId := ''hunts/H.00000002'', CreateTime := 4990000000,
                 State := Hunt_RUNNING, ClientRate := 60, LastUnpauseTime := 4997000000,
                 TotalClientsScheduled := 1\<rparr>"

definition ex_info :: "string \<Rightarrow> HuntInfo" where
  "ex_info client_id =
     empty_HuntInfo\<lparr>Info_HuntId := ''hunts/H.00000002'', Info_ClientId := client_id\<rparr>"

definition ex_pending :: datastore where
  "ex_pending =
     \<lparr>subjects =
        [(''hunts/H.00000001'', HuntSubject ex_hunt),
         (''hunts/H.00000002'', HuntSubject ex_running),
         (''hunts/H.00000002/pending/C.1'', HuntInfoSubject (ex_info ''C.1'')),
         (''hunts/H.00000002/pending/C.bad'', HuntInfoSubject (ex_info ''C.bad'')),
         (''hunts/H.00000002/pending/C.3'', HuntInfoSubject (ex_info ''C.3''))],
      list_fail = [], get_fail = [], set_fail = [], delete_fail = [], oplog = []\<rparr>"

text \<open>The same store when the delete of the first pending entry fails.\<close>

definition ex_pending_stuck :: datastore where
  "ex_pending_stuck = ex_pending\<lparr>delete_fail := [''hunts/H.00000002/pending/C.1'']\<rparr>"

text \<open>The store of the paused hunt when listing the hunts fails.\<close>

definition ex_store_down :: datastore where
  "ex_store_down = ex_store\<lparr>list_fail := [''hunts'']\<rparr>"

definition ex_mirror :: HuntDispatcher where
  "ex_mirror = \<lparr>config_obj = ex_config, last_timestamp = 0, hunts = [ex_hunt]\<rparr>"

definition ex_mirror2 :: HuntDispatcher where
  "ex_mirror2 = \<lparr>config_obj = ex_config, last_timestamp = 0, hunts = [ex_running, ex_hunt]\<rparr>"




text \<open>
  Mirrors for the lookups: a hunt with a start request, a hunt whose stored id has no
  slash, and a hunt whose creation time is zero.
\<close>

definition ex_started :: Hunt where
  "ex_started =
     ex_hunt\<lparr>StartRequest := Some
       \<lparr>Args_ClientId = [], Args_FlowName = ''ArtifactCollector'', Args_Creator = [],
        Args_Args = Some (Any_ArtifactCollectorArgs (Some [''Generic.Client.Info'']))\<rparr>\<rparr>"




definition ex_zero :: Hunt where
  "ex_zero = ex_started\<lparr>HuntId := ''hunts/H.00000003'', CreateTime := 0\<rparr>"

definition ex_mirror_zero :: HuntDispatcher where
  "ex_mirror_zero = \<lparr>config_obj = ex_config, last_timestamp = 0, hunts = [ex_zero]\<rparr>"

section \<open>Properties\<close>

subsection \<open>The datastore calls\<close>

lemma oplog_issue: "oplog (issue c db) = oplog db @ [c]"
  by (simp add: issue_def)

lemma GetSubject_HuntInfo_db:
  "snd (GetSubject_HuntInfo db urn) = issue (OpGet urn) db"
  by (simp add: GetSubject_HuntInfo_def split: option.splits subject.splits)

lemma SetSubject_oplog:
  "oplog (snd (SetSubject db urn v)) = oplog db @ [OpSet urn v]"
  by (simp add: SetSubject_def issue_def)

lemma SetSubject_delete_fail:
  "delete_fail (snd (SetSubject db urn v)) = delete_fail db"
  by (simp add: SetSubject_def issue_def)

lemma DeleteSubject_oplog:
  "oplog (snd (DeleteSubject db urn)) = oplog db @ [OpDelete urn]"
  by (simp add: DeleteSubject_def issue_def)

lemma DeleteSubject_delete_fail:
  "delete_fail (snd (DeleteSubject db urn)) = delete_fail db"
  by (simp add: DeleteSubject_def issue_def)

lemma DeleteSubject_keys:
  "fst ` set (subjects (snd (DeleteSubject db urn))) \<subseteq> fst ` set (subjects db)"
  by (auto simp: DeleteSubject_def issue_def)

lemma DeleteSubject_gone:
  "urn \<notin> set (delete_fail db) \<Longrightarrow> urn \<notin> fst ` set (subjects (snd (DeleteSubject db urn)))"
  by (auto simp: DeleteSubject_def issue_def)

lemma ListChildren_length:
  "ListChildren db urn offset limit = (Inr urns, db1) \<Longrightarrow> length urns \<le> unat limit"
  by (auto simp: ListChildren_def split: if_splits)

lemma ListChildren_db:
  "snd (ListChildren db urn offset limit) = issue (OpList urn offset limit) db"
  by (simp add: ListChildren_def)

subsection \<open>The deferred removal of listed entries\<close>

lemma delete_body_fst: "fst (delete_body u st) = snd (DeleteSubject (fst st) u)"
  by (simp add: delete_body_def split: prod.splits)

lemma delete_fold_oplog:
  "oplog (fst (fold delete_body urns st)) = oplog (fst st) @ map OpDelete urns"
proof (induction urns arbitrary: st)
  case Nil
  then show ?case by simp
next
  case (Cons u us)
  have "oplog (fst (fold delete_body (u # us) st)) =
        oplog (fst (delete_body u st)) @ map OpDelete us"
    using Cons.IH [of "delete_body u st"] by simp
  then show ?case by (simp add: delete_body_fst DeleteSubject_oplog)
qed

lemma delete_fold_fail:
  "delete_fail (fst (fold delete_body urns st)) = delete_fail (fst st)"
proof (induction urns arbitrary: st)
  case Nil
  then show ?case by simp
next
  case (Cons u us)
  have "delete_fail (fst (fold delete_body (u # us) st)) = delete_fail (fst (delete_body u st))"
    using Cons.IH [of "delete_body u st"] by simp
  then show ?case by (simp add: delete_body_fst DeleteSubject_delete_fail)
qed

lemma delete_fold_keys:
  "fst ` set (subjects (fst (fold delete_body urns st))) \<subseteq> fst ` set (subjects (fst st))"
proof (induction urns arbitrary: st)
  case Nil
  then show ?case by simp
next
  case (Cons u us)
  have "fst ` set (subjects (fst (fold delete_body (u # us) st)))
        \<subseteq> fst ` set (subjects (fst (delete_body u st)))"
    using Cons.IH [of "delete_body u st"] by simp
  also have "\<dots> \<subseteq> fst ` set (subjects (fst st))"
    unfolding delete_body_fst by (rule DeleteSubject_keys)
  finally show ?case .
qed

lemma delete_fold_gone:
  "u \<in> set urns \<Longrightarrow> u \<notin> set (delete_fail (fst st)) \<Longrightarrow>
   u \<notin> fst ` set (subjects (fst (fold delete_body urns st)))"
proof (induction urns arbitrary: st)
  case Nil
  then show ?case by simp
next
  case (Cons v vs)
  let ?st = "delete_body v st"
  have fl: "delete_fail (fst ?st) = delete_fail (fst st)"
    by (simp add: delete_body_fst DeleteSubject_delete_fail)
  have step: "fold delete_body (v # vs) st = fold delete_body vs ?st" by simp
  show ?case
  proof (cases "u \<in> set vs")
    case True
    have "u \<notin> set (delete_fail (fst ?st))" using Cons.prems(2) fl by simp
    from Cons.IH [OF True this] show ?thesis unfolding step .
  next
    case False
    with Cons.prems have uv: "u = v" by simp
    have "v \<notin> fst ` set (subjects (snd (DeleteSubject (fst st) v)))"
      using Cons.prems(2) uv by (intro DeleteSubject_gone) simp
    then have "u \<notin> fst ` set (subjects (fst ?st))" by (simp add: delete_body_fst uv)
    moreover have "fst ` set (subjects (fst (fold delete_body vs ?st)))
        \<subseteq> fst ` set (subjects (fst ?st))" by (rule delete_fold_keys)
    ultimately show ?thesis unfolding step by blast
  qed
qed

subsection \<open>Hunt ids\<close>

lemma hi_nibble: "unat (drop_bit 4 (v :: 8 word)) < 16"
proof -
  have "unat (drop_bit 4 v) = unat v div 2 ^ 4" by (simp add: drop_bit_eq_div unat_div)
  moreover have "unat v < 2 ^ 8" using unsigned_less [of v] by simp
  ultimately show ?thesis by (simp add: less_mult_imp_div_less)
qed

lemma lo_nibble: "unat ((v :: 8 word) AND 0x0f) < 16"
proof -
  have "unat (v AND 15) \<le> unat (15 :: 8 word)"
    by (rule word_and_le1 [THEN word_le_nat_alt [THEN iffD1]])
  then show ?thesis by simp
qed

lemma hextable_nth: "n < 16 \<Longrightarrow> hextable ! n \<in> set ''0123456789abcdef''"
proof -
  assume "n < 16"
  then have "n < length hextable" by (simp add: hextable_def)
  then have "hextable ! n \<in> set hextable" by (rule nth_mem)
  then show ?thesis by (simp add: hextable_def)
qed

lemma hex_digits: "set (concat (map (\<lambda>v. [hextable ! unat (drop_bit 4 v), hextable ! unat (v AND 0x0f)]) (src :: 8 word list))) \<subseteq> set ''0123456789abcdef''"
  using hextable_nth [OF hi_nibble] hextable_nth [OF lo_nibble]
  by (induction src) auto

lemma hex_length: "length (concat (map (\<lambda>v. [f v, g v]) src)) = 2 * length src"
  by (induction src) auto

lemma rand_Read_length: "length (rand_Read rnd buf) = length buf"
  by (simp add: rand_Read_def)

lemma GetNewHuntId_eq: "GetNewHuntId rnd = ''hunts/H.'' @ hex_Encode (replicate 8 (CHR 0x00)) (rand_Read rnd (replicate 4 0))"
  by (simp add: GetNewHuntId_def BuildURN_def HUNT_PREFIX_def Let_def)

lemma hex_Encode_exact: "length dst = 2 * length src \<Longrightarrow> hex_Encode dst src = concat (map (\<lambda>v. [hextable ! unat (drop_bit 4 v), hextable ! unat (v AND 0x0f)]) src)"
  by (simp add: hex_Encode_def)

lemma CreateHunt_id: "CreateHunt e rnd cfg hunt c db = Some (Inr hunt_id, c', db') \<Longrightarrow> hunt_id = GetNewHuntId rnd"
  by (auto simp: CreateHunt_def Let_def split: option.splits prod.splits if_splits)

text \<open>
  Claim C4, as the code has it.  A hunt id made by \<^verbatim>\<open>GetNewHuntId\<close> is
  \<^verbatim>\<open>hunts/H.\<close> followed by eight characters, each a lower-case hexadecimal digit;
  it is determined by the first four bytes the random generator delivers (the buffer
  read from it is four bytes long, and \<^verbatim>\<open>hex.Encode\<close> gives two digits a byte);
  and the id \<^verbatim>\<open>CreateHunt\<close> returns is that id.
\<close>

theorem GetNewHuntId_form:
  "take 8 (GetNewHuntId rnd) = ''hunts/H.'' \<and>
   length (drop 8 (GetNewHuntId rnd)) = 8 \<and>
   set (drop 8 (GetNewHuntId rnd)) \<subseteq> set ''0123456789abcdef'' \<and>
   GetNewHuntId rnd = GetNewHuntId (take 4 rnd) \<and>
   (CreateHunt e rnd cfg hunt c db = Some (Inr hunt_id, c', db') \<longrightarrow> hunt_id = GetNewHuntId rnd)"
proof -
  let ?buf = "rand_Read rnd (replicate 4 0)"
  have len: "length ?buf = 4" by (simp add: rand_Read_length)
  have enc: "hex_Encode (replicate 8 (CHR 0x00)) ?buf =
      concat (map (\<lambda>v. [hextable ! unat (drop_bit 4 v), hextable ! unat (v AND 0x0f)]) ?buf)"
    by (rule hex_Encode_exact) (simp add: len)
  have a: "take 8 (GetNewHuntId rnd) = ''hunts/H.''" by (simp add: GetNewHuntId_eq)
  have d: "drop 8 (GetNewHuntId rnd) = hex_Encode (replicate 8 (CHR 0x00)) ?buf"
    by (simp add: GetNewHuntId_eq)
  have b: "length (drop 8 (GetNewHuntId rnd)) = 8"
    unfolding d enc by (simp only: hex_length len)
  have c: "set (drop 8 (GetNewHuntId rnd)) \<subseteq> set ''0123456789abcdef''"
    unfolding d enc by (rule hex_digits)
  have "rand_Read (take 4 rnd) (replicate 4 0) = ?buf"
    by (simp add: rand_Read_def min_def)
  then have e: "GetNewHuntId rnd = GetNewHuntId (take 4 rnd)"
    by (simp add: GetNewHuntId_eq)
  from a b c e CreateHunt_id show ?thesis by blast
qed

theorem GetNewHuntId_form_witness:
  "map_option fst (CreateHunt ex_env [0x01, 0x23, 0x45, 0x67] ex_config empty_Hunt None ex_store)
     = Some (Inr ''hunts/H.01234567'') \<and>
   GetNewHuntId [0x01, 0x23, 0x45, 0x67] = ''hunts/H.01234567''"
proof -
  let ?r = "CreateHunt ex_env [0x01, 0x23, 0x45, 0x67] ex_config empty_Hunt None ex_store"
  have r: "map_option fst ?r = Some (Inr ''hunts/H.01234567'')" by code_simp
  then obtain c' db' where "?r = Some (Inr ''hunts/H.01234567'', c', db')"
    by (cases ?r) auto
  with GetNewHuntId_form [of "[0x01, 0x23, 0x45, 0x67]" ex_env ex_config empty_Hunt None ex_store
      "''hunts/H.01234567''" c' db']
  have "''hunts/H.01234567'' = GetNewHuntId [0x01, 0x23, 0x45, 0x67]" by blast
  with r show ?thesis by simp
qed

text \<open>
  Claim C4 as stated fails: eight random bytes give an id with eight hexadecimal
  characters (from the first four bytes), not sixteen.
\<close>

theorem GetNewHuntId_sixteen_counterexample:
  "GetNewHuntId [0x01, 0x23, 0x45, 0x67, 0x89, 0xab, 0xcd, 0xef] = ''hunts/H.01234567'' \<and>
   length (drop 8 (GetNewHuntId [0x01, 0x23, 0x45, 0x67, 0x89, 0xab, 0xcd, 0xef])) \<noteq> 16"
  by (simp add: GetNewHuntId_def rand_Read_def hex_Encode_def BuildURN_def HUNT_PREFIX_def hextable_def)

subsection \<open>\<^verbatim>\<open>ModifyHunt\<close> on a paused hunt\<close>

text \<open>
  Claim C1 at a concrete input.  The stored hunt is paused, with seven clients scheduled
  and its last unpause at 1000000 microseconds; the patch asks for \<^verbatim>\<open>RUNNING\<close> when
  the clock stands at 5000000000 microseconds.  The hunt \<^verbatim>\<open>ModifyHunt\<close> persists
  differs from the stored one in its state only: \<^verbatim>\<open>LastUnpauseTime\<close> is not the current
  time and \<^verbatim>\<open>TotalClientsWhenUnpaused\<close> is not \<^verbatim>\<open>TotalClientsScheduled\<close>.
\<close>

theorem ModifyHunt_unpause_keeps_counters:
  "map_option (\<lambda>r. (fst r, map_of (subjects (snd (snd r))) ''hunts/H.00000001''))
     (ModifyHunt ex_env ex_config
        (empty_Hunt\<lparr>HuntId := ''hunts/H.00000001'', State := Hunt_RUNNING\<rparr>) None ex_store)
     = Some (None, Some (HuntSubject (ex_hunt\<lparr>State := Hunt_RUNNING\<rparr>))) \<and>
   State ex_hunt = Hunt_PAUSED \<and>
   LastUnpauseTime (ex_hunt\<lparr>State := Hunt_RUNNING\<rparr>) \<noteq> now_micros ex_env \<and>
   TotalClientsWhenUnpaused (ex_hunt\<lparr>State := Hunt_RUNNING\<rparr>)
     \<noteq> TotalClientsScheduled (ex_hunt\<lparr>State := Hunt_RUNNING\<rparr>)"
  by code_simp

text \<open>
  What follows from it: with two clients pending, the refresh that \<^verbatim>\<open>ModifyHunt\<close>
  triggers launches both at once, although no time has passed since the unpause.  The
  deficit was taken from the old \<^verbatim>\<open>LastUnpauseTime\<close>, 4999 seconds back; from the
  time of the unpause and a snapshot of seven it would have been zero.
\<close>

lemma ModifyHunt_unpause_bursts:
  "map_option (\<lambda>r. map_of (subjects (snd (snd r))) ''hunts/H.00000001'')
     (ModifyHunt ex_env ex_config
        (empty_Hunt\<lparr>HuntId := ''hunts/H.00000001'', State := Hunt_RUNNING\<rparr>) None
        ex_paused_pending)
     = Some (Some (HuntSubject (ex_hunt\<lparr>State := Hunt_RUNNING, TotalClientsScheduled := 9\<rparr>)))"
  by code_simp

subsection \<open>The client scheduler\<close>

lemma Schedule_body_effect:
  "\<exists>ops k. oplog (sc_db (Schedule_body e urn s)) = oplog (sc_db s) @ OpGet urn # ops \<and>
     (\<forall>c\<in>set ops. is_OpSet c) \<and> k \<le> (1::nat) \<and>
     TotalClientsScheduled (sc_hunt (Schedule_body e urn s)) =
       TotalClientsScheduled (sc_hunt s) + of_nat k \<and>
     delete_fail (sc_db (Schedule_body e urn s)) = delete_fail (sc_db s)"
proof -
  obtain r db1 where g: "GetSubject_HuntInfo (sc_db s) urn = (r, db1)"
    by (cases "GetSubject_HuntInfo (sc_db s) urn")
  then have db1: "db1 = issue (OpGet urn) (sc_db s)"
    using GetSubject_HuntInfo_db [of "sc_db s" urn] by simp
  then have l1: "oplog db1 = oplog (sc_db s) @ [OpGet urn]" and
    f1: "delete_fail db1 = delete_fail (sc_db s)" by (simp_all add: issue_def)
  show ?thesis
  proof (cases r)
    case (Inl err)
    with g l1 f1 show ?thesis
      by (intro exI [of _ "[]"] exI [of _ 0]) (simp add: Schedule_body_def)
  next
    case (Inr summary)
    show ?thesis
    proof (cases "MarshalAny e summary")
      case (Inl err)
      with g Inr l1 f1 show ?thesis
        by (intro exI [of _ "[]"] exI [of _ 0]) (simp add: Schedule_body_def)
    next
      case m: (Inr flow_args)
      let ?req = "\<lparr>Args_ClientId = Info_ClientId summary, Args_FlowName = ''HuntRunnerFlow'',
                     Args_Creator = [], Args_Args = Some flow_args\<rparr>"
      show ?thesis
      proof (cases "LaunchFlow e ?req")
        case (Inl err)
        let ?v = "HuntInfoSubject (summary\<lparr>Info_State := HuntInfo_ERROR,
                    Info_Result := Some \<lparr>Ctx_CreateTime = now_micros e,
                      Ctx_Backtrace = ''HuntDispatcher: '' @ error_text err,
                      Ctx_State = FlowContext_UNSET, Ctx_TotalResults = 0\<rparr>\<rparr>)"
        let ?u = "HuntId (sc_hunt s) @ ''/errors/'' @ Info_ClientId summary"
        from g Inr m Inl l1 f1 show ?thesis
          by (intro exI [of _ "[OpSet ?u ?v]"] exI [of _ 0])
             (simp add: Schedule_body_def Let_def SetSubject_oplog SetSubject_delete_fail)
      next
        case l: (Inr flow_id)
        let ?v = "HuntInfoSubject (summary\<lparr>Info_FlowId := flow_id\<rparr>)"
        let ?u = "HuntId (sc_hunt s) @ ''/running/'' @ Info_ClientId summary"
        from g Inr m l l1 f1 show ?thesis
          by (intro exI [of _ "[OpSet ?u ?v]"] exI [of _ 1])
             (simp add: Schedule_body_def Let_def SetSubject_oplog SetSubject_delete_fail)
      qed
    qed
  qed
qed

lemma Schedule_fold_effect:
  "\<exists>ops k. oplog (sc_db (fold (Schedule_body e) urns s)) = oplog (sc_db s) @ ops \<and>
     length (filter is_OpGet ops) = length urns \<and> filter is_OpList ops = [] \<and>
     filter is_OpDelete ops = [] \<and> k \<le> length urns \<and>
     TotalClientsScheduled (sc_hunt (fold (Schedule_body e) urns s)) =
       TotalClientsScheduled (sc_hunt s) + of_nat k \<and>
     delete_fail (sc_db (fold (Schedule_body e) urns s)) = delete_fail (sc_db s)"
proof (induction urns arbitrary: s)
  case Nil
  show ?case by (intro exI [of _ "[]"] exI [of _ 0]) simp
next
  case (Cons u us)
  let ?s1 = "Schedule_body e u s"
  from Schedule_body_effect [of e u s] obtain ops1 k1 where
    a1: "oplog (sc_db ?s1) = oplog (sc_db s) @ OpGet u # ops1" and
    a2: "\<forall>c\<in>set ops1. is_OpSet c" and a3: "k1 \<le> 1" and
    a4: "TotalClientsScheduled (sc_hunt ?s1) = TotalClientsScheduled (sc_hunt s) + of_nat k1" and
    a5: "delete_fail (sc_db ?s1) = delete_fail (sc_db s)" by blast
  from Cons.IH [of ?s1] obtain ops2 k2 where
    b1: "oplog (sc_db (fold (Schedule_body e) us ?s1)) = oplog (sc_db ?s1) @ ops2" and
    b2: "length (filter is_OpGet ops2) = length us" and b3: "filter is_OpList ops2 = []" and
    b3': "filter is_OpDelete ops2 = []" and
    b4: "k2 \<le> length us" and
    b5: "TotalClientsScheduled (sc_hunt (fold (Schedule_body e) us ?s1)) =
           TotalClientsScheduled (sc_hunt ?s1) + of_nat k2" and
    b6: "delete_fail (sc_db (fold (Schedule_body e) us ?s1)) = delete_fail (sc_db ?s1)" by blast
  have sets: "filter is_OpGet ops1 = []" "filter is_OpList ops1 = []" "filter is_OpDelete ops1 = []"
    using a2 by (auto simp: filter_empty_conv store_op.disc_eq_case split: store_op.splits)
  show ?case
  proof (intro exI [of _ "OpGet u # ops1 @ ops2"] exI [of _ "k1 + k2"] conjI)
    show "oplog (sc_db (fold (Schedule_body e) (u # us) s)) = oplog (sc_db s) @ OpGet u # ops1 @ ops2"
      using a1 b1 by simp
    show "length (filter is_OpGet (OpGet u # ops1 @ ops2)) = length (u # us)"
      using sets b2 by simp
    show "filter is_OpList (OpGet u # ops1 @ ops2) = []" using sets b3 by simp
    show "filter is_OpDelete (OpGet u # ops1 @ ops2) = []" using sets b3' by simp
    show "k1 + k2 \<le> length (u # us)" using a3 b4 by simp
    show "TotalClientsScheduled (sc_hunt (fold (Schedule_body e) (u # us) s)) =
       TotalClientsScheduled (sc_hunt s) + of_nat (k1 + k2)" using a4 b5 by simp
    show "delete_fail (sc_db (fold (Schedule_body e) (u # us) s)) = delete_fail (sc_db s)"
      using a5 b6 by simp
  qed
qed



lemma Schedule_unfold:
  assumes "expected = (if ClientRate hunt = 0 then 20 else ClientRate hunt) *
      ((now_micros e - (if LastUnpauseTime hunt = 0 then CreateTime hunt else LastUnpauseTime hunt))
         div 1000000) div 60 + TotalClientsWhenUnpaused hunt"
  shows "ScheduleClientsForHunt e cfg hunt db =
     (case GetDB cfg of
        Some err \<Rightarrow> (hunt, False, Some err, db)
      | None \<Rightarrow>
          if TotalClientsScheduled hunt < expected
          then (case ListChildren db (HuntId hunt @ ''/pending'') 0
                       (expected - TotalClientsScheduled hunt) of
                  (Inl err, db1) \<Rightarrow> (hunt, False, Some err, db1)
                | (Inr urns, db1) \<Rightarrow>
                    if urns = [] then (hunt, False, None, db1)
                    else (sc_hunt (fold (Schedule_body e) urns
                                    \<lparr>sc_hunt = hunt, sc_modified = False, sc_db = db1\<rparr>),
                          sc_modified (fold (Schedule_body e) urns
                                    \<lparr>sc_hunt = hunt, sc_modified = False, sc_db = db1\<rparr>),
                          None,
                          fst (fold delete_body urns
                                (sc_db (fold (Schedule_body e) urns
                                    \<lparr>sc_hunt = hunt, sc_modified = False, sc_db = db1\<rparr>), None))))
          else (hunt, False, None, db))"
  unfolding assms ScheduleClientsForHunt_def Let_def
  by (simp split: option.splits prod.splits sum.splits)

text \<open>What one call of the scheduler adds to the log and to the hunt.\<close>

lemma Schedule_effect:
  assumes ex: "expected = (if ClientRate hunt = 0 then 20 else ClientRate hunt) *
      ((now_micros e - (if LastUnpauseTime hunt = 0 then CreateTime hunt else LastUnpauseTime hunt))
         div 1000000) div 60 + TotalClientsWhenUnpaused hunt"
    and run: "ScheduleClientsForHunt e cfg hunt db = (hunt', modified, err, db')"
  shows "(db' = db \<and> hunt' = hunt \<and> \<not> modified \<and>
            (GetDB cfg \<noteq> None \<or> expected \<le> TotalClientsScheduled hunt)) \<or>
         (TotalClientsScheduled hunt < expected \<and>
          (\<exists>urns ops k.
             urns = (case fst (ListChildren db (HuntId hunt @ ''/pending'') 0
                            (expected - TotalClientsScheduled hunt)) of
                       Inl _ \<Rightarrow> [] | Inr us \<Rightarrow> us) \<and>
             length urns \<le> unat (expected - TotalClientsScheduled hunt) \<and>
             oplog db' = oplog db @
                OpList (HuntId hunt @ ''/pending'') 0 (expected - TotalClientsScheduled hunt)
                  # ops @ map OpDelete urns \<and>
             length (filter is_OpGet ops) = length urns \<and>
             filter is_OpList ops = [] \<and> filter is_OpDelete ops = [] \<and>
             k \<le> length urns \<and>
             TotalClientsScheduled hunt' = TotalClientsScheduled hunt + of_nat k \<and>
             delete_fail db' = delete_fail db \<and>
             (\<forall>u\<in>set urns. u \<notin> set (delete_fail db) \<longrightarrow> u \<notin> fst ` set (subjects db'))))"
proof (cases "GetDB cfg = None \<and> TotalClientsScheduled hunt < expected")
  case False
  then have c: "GetDB cfg \<noteq> None \<or> expected \<le> TotalClientsScheduled hunt"
    by (auto simp: not_less)
  then have "ScheduleClientsForHunt e cfg hunt db = (hunt, False, GetDB cfg, db)"
    unfolding Schedule_unfold [OF ex] by (cases "GetDB cfg") auto
  with run have "db' = db \<and> hunt' = hunt \<and> \<not> modified" by simp
  with c show ?thesis by blast
next
  case True
  let ?lim = "expected - TotalClientsScheduled hunt"
  let ?p = "HuntId hunt @ ''/pending''"
  obtain r db1 where lc: "ListChildren db ?p 0 ?lim = (r, db1)"
    by (cases "ListChildren db ?p 0 ?lim")
  have db1: "db1 = issue (OpList ?p 0 ?lim) db" using lc ListChildren_db [of db ?p 0 ?lim] by simp
  then have l1: "oplog db1 = oplog db @ [OpList ?p 0 ?lim]" and f1: "delete_fail db1 = delete_fail db"
    by (simp_all add: issue_def)
  show ?thesis
  proof (cases r)
    case (Inl er)
    with run True lc have "hunt' = hunt" "db' = db1"
      unfolding Schedule_unfold [OF ex] by auto
    with True l1 f1 lc Inl show ?thesis
      by (intro disjI2 conjI exI [of _ "[]"] exI [of _ 0]) simp_all
  next
    case (Inr urns)
    have len: "length urns \<le> unat ?lim" using lc Inr by (auto dest: ListChildren_length)
    show ?thesis
    proof (cases "urns = []")
      case e: True
      with run True lc Inr have "hunt' = hunt" "db' = db1"
        unfolding Schedule_unfold [OF ex] by auto
      with True l1 f1 lc Inr e show ?thesis
        by (intro disjI2 conjI exI [of _ "[]"] exI [of _ 0]) simp_all
    next
      case ne: False
      let ?s0 = "\<lparr>sc_hunt = hunt, sc_modified = False, sc_db = db1\<rparr>"
      let ?S = "fold (Schedule_body e) urns ?s0"
      from run True lc Inr ne have h': "hunt' = sc_hunt ?S"
        and d': "db' = fst (fold delete_body urns (sc_db ?S, None))"
        unfolding Schedule_unfold [OF ex] by auto
      from Schedule_fold_effect [of e urns ?s0] obtain ops k where
        b1: "oplog (sc_db ?S) = oplog db1 @ ops" and
        b2: "length (filter is_OpGet ops) = length urns" and
        b3: "filter is_OpList ops = []" and b4: "filter is_OpDelete ops = []" and
        b5: "k \<le> length urns" and
        b6: "TotalClientsScheduled (sc_hunt ?S) = TotalClientsScheduled hunt + of_nat k" and
        b7: "delete_fail (sc_db ?S) = delete_fail db1" by auto
      have lg: "oplog db' = oplog db @ OpList ?p 0 ?lim # ops @ map OpDelete urns"
        unfolding d' by (simp add: delete_fold_oplog b1 l1)
      have fl: "delete_fail db' = delete_fail db"
        unfolding d' by (simp add: delete_fold_fail b7 f1)
      have gone: "\<forall>u\<in>set urns. u \<notin> set (delete_fail db) \<longrightarrow> u \<notin> fst ` set (subjects db')"
      proof (intro ballI impI)
        fix u assume "u \<in> set urns" "u \<notin> set (delete_fail db)"
        then show "u \<notin> fst ` set (subjects db')"
          unfolding d' using delete_fold_gone [of u urns "(sc_db ?S, None)"] b7 f1 by simp
      qed
      have fstl: "fst (ListChildren db ?p 0 ?lim) = Inr urns" using lc Inr by simp
      show ?thesis
        apply (rule disjI2)
        apply (rule conjI)
         apply (simp add: True)
        apply (rule exI [of _ urns], rule exI [of _ ops], rule exI [of _ k])
        using fstl len lg b2 b3 b4 b5 b6 h' fl gone by simp
    qed
  qed
qed



text \<open>
  Claim C6, as the code has it.  For every listing one call of the scheduler issues and
  every entry that listing returns, the call issues a delete of the entry, whatever the
  read and the launch of the entry did; an entry whose delete does not fail is no
  longer in the store, so no longer in the pending queue.
\<close>

theorem ScheduleClientsForHunt_removes_pulled:
  assumes run: "ScheduleClientsForHunt e cfg hunt db = (hunt', modified, err, db')"
    and issued: "OpList p offset limit \<in> set (drop (length (oplog db)) (oplog db'))"
    and listed: "ListChildren db p offset limit = (Inr urns, db1)"
    and u: "u \<in> set urns"
  shows "OpDelete u \<in> set (drop (length (oplog db)) (oplog db')) \<and>
         (u \<notin> set (delete_fail db) \<longrightarrow>
            u \<notin> fst ` set (subjects db') \<and> u \<notin> set (children db' p))"
proof -
  define expected where "expected = (if ClientRate hunt = 0 then 20 else ClientRate hunt) *
      ((now_micros e - (if LastUnpauseTime hunt = 0 then CreateTime hunt else LastUnpauseTime hunt))
         div 1000000) div 60 + TotalClientsWhenUnpaused hunt"
  let ?lim = "expected - TotalClientsScheduled hunt"
  let ?p = "HuntId hunt @ ''/pending''"
  have "db' \<noteq> db" using issued by auto
  with Schedule_effect [OF expected_def run]
  obtain urns' ops where
    fst_l: "urns' = (case fst (ListChildren db ?p 0 ?lim) of Inl _ \<Rightarrow> [] | Inr us \<Rightarrow> us)" and
    lg: "oplog db' = oplog db @ OpList ?p 0 ?lim # ops @ map OpDelete urns'" and
    nl: "filter is_OpList ops = []" and
    gone: "\<forall>u\<in>set urns'. u \<notin> set (delete_fail db) \<longrightarrow> u \<notin> fst ` set (subjects db')"
    by blast
  have "\<forall>c\<in>set ops. \<not> is_OpList c" using nl by (simp add: filter_empty_conv)
  with issued lg have same: "p = ?p \<and> offset = 0 \<and> limit = ?lim" by auto
  with listed fst_l have eq: "urns' = urns" by simp
  have del: "OpDelete u \<in> set (drop (length (oplog db)) (oplog db'))"
    using lg u eq by simp
  have "u \<notin> set (delete_fail db) \<longrightarrow> u \<notin> fst ` set (subjects db')"
    using gone u eq by simp
  moreover have "u \<notin> fst ` set (subjects db') \<Longrightarrow> u \<notin> set (children db' p)"
    by (auto simp: children_def)
  ultimately show ?thesis using del by blast
qed

theorem ScheduleClientsForHunt_removes_pulled_witness:
  "''hunts/H.00000002/pending/C.bad'' \<notin> set (delete_fail ex_pending) \<and>
   OpDelete ''hunts/H.00000002/pending/C.bad''
     \<in> set (oplog (snd (snd (snd (ScheduleClientsForHunt ex_env ex_config ex_running ex_pending))))) \<and>
   ''hunts/H.00000002/pending/C.bad''
     \<notin> set (children (snd (snd (snd (ScheduleClientsForHunt ex_env ex_config ex_running ex_pending))))
              ''hunts/H.00000002/pending'')"
proof -
  let ?p = "''hunts/H.00000002/pending''"
  let ?u = "''hunts/H.00000002/pending/C.bad''"
  obtain h m er d where r: "ScheduleClientsForHunt ex_env ex_config ex_running ex_pending = (h, m, er, d)"
    by (cases "ScheduleClientsForHunt ex_env ex_config ex_running ex_pending") auto
  have "OpList ?p 0 2 \<in> set (drop (length (oplog ex_pending))
          (oplog (snd (snd (snd (ScheduleClientsForHunt ex_env ex_config ex_running ex_pending))))))"
    by code_simp
  then have i: "OpList ?p 0 2 \<in> set (drop (length (oplog ex_pending)) (oplog d))" using r by simp
  have l: "ListChildren ex_pending ?p 0 2 =
      (Inr [''hunts/H.00000002/pending/C.1'', ?u], snd (ListChildren ex_pending ?p 0 2))"
    by code_simp
  have u: "?u \<in> set [''hunts/H.00000002/pending/C.1'', ?u]" by simp
  have f: "?u \<notin> set (delete_fail ex_pending)" by (simp add: ex_pending_def)
  from ScheduleClientsForHunt_removes_pulled [OF r i l u] f
  have "OpDelete ?u \<in> set (drop (length (oplog ex_pending)) (oplog d)) \<and> ?u \<notin> set (children d ?p)"
    by blast
  then have "OpDelete ?u \<in> set (oplog d) \<and> ?u \<notin> set (children d ?p)"
    by (auto dest: in_set_dropD)
  with f r show ?thesis by simp
qed

text \<open>
  Claim C6 as stated fails when a delete fails: the entry was listed, its flow was
  launched, the delete of it was issued, and it is still in the pending queue.
\<close>

theorem ScheduleClientsForHunt_failed_delete_counterexample:
  "fst (ListChildren ex_pending_stuck ''hunts/H.00000002/pending'' 0 2) =
     Inr [''hunts/H.00000002/pending/C.1'', ''hunts/H.00000002/pending/C.bad''] \<and>
   OpDelete ''hunts/H.00000002/pending/C.1''
     \<in> set (oplog (snd (snd (snd
              (ScheduleClientsForHunt ex_env ex_config ex_running ex_pending_stuck))))) \<and>
   ''hunts/H.00000002/pending/C.1''
     \<in> set (children (snd (snd (snd
              (ScheduleClientsForHunt ex_env ex_config ex_running ex_pending_stuck))))
            ''hunts/H.00000002/pending'')"
  by code_simp

subsection \<open>Result triage\<close>


















subsection \<open>\<^verbatim>\<open>Update\<close> on hunts that are not running\<close>

lemma Update_loop_skip:
  "\<forall>h\<in>set hs. State h \<noteq> Hunt_RUNNING \<Longrightarrow> Update_loop e cfg hs db = Some (hs, db)"
  by (induction hs) (auto simp: Update_hunt_def)

lemma Update_loop_keeps:
  "Update_loop e cfg hs db = Some (hs', db') \<Longrightarrow>
   length hs' = length hs \<and> (\<forall>i<length hs. State (hs ! i) \<noteq> Hunt_RUNNING \<longrightarrow> hs' ! i = hs ! i)"
proof (induction hs arbitrary: db hs')
  case Nil
  then show ?case by simp
next
  case (Cons h hs)
  from Cons.prems obtain h1 db1 rest where
    s1: "Update_hunt e cfg h db = Some (h1, db1)" and
    s2: "Update_loop e cfg hs db1 = Some (rest, db')" and
    s3: "hs' = h1 # rest"
    by (auto split: option.splits)
  have hd: "State h \<noteq> Hunt_RUNNING \<Longrightarrow> h1 = h"
    using s1 by (simp add: Update_hunt_def)
  from Cons.IH [OF s2] have ih: "length rest = length hs"
    "\<forall>i<length hs. State (hs ! i) \<noteq> Hunt_RUNNING \<longrightarrow> rest ! i = hs ! i" by simp_all
  show ?case
  proof (intro conjI allI impI)
    show "length hs' = length (h # hs)" using s3 ih(1) by simp
  next
    fix i assume "i < length (h # hs)" "State ((h # hs) ! i) \<noteq> Hunt_RUNNING"
    then show "hs' ! i = (h # hs) ! i"
      using s3 hd ih(2) by (cases i) auto
  qed
qed

text \<open>
  Claim C5.  For a hunt whose state is not \<^verbatim>\<open>RUNNING\<close>, the round of \<^verbatim>\<open>Update\<close>
  for that hunt returns, with the hunt and the datastore (its objects and the log of the
  calls issued) as they were: no store call is issued and no counter changes.  So
  \<^verbatim>\<open>Update\<close> on a mirror without a running hunt returns with the mirror and the store
  unchanged, and in any \<^verbatim>\<open>Update\<close> that returns, each hunt that is not running is
  unchanged in the mirror.
\<close>

theorem Update_skips_hunts_not_running:
  "(State hunt \<noteq> Hunt_RUNNING \<longrightarrow> Update_hunt e cfg hunt db = Some (hunt, db)) \<and>
   ((\<forall>h\<in>set (hunts self). State h \<noteq> Hunt_RUNNING) \<longrightarrow>
      Update e self db = Some (GetDB (config_obj self), self, db)) \<and>
   (Update e self db = Some (err, self', db') \<and> i < length (hunts self) \<and>
    State (hunts self ! i) \<noteq> Hunt_RUNNING \<longrightarrow>
      i < length (hunts self') \<and> hunts self' ! i = hunts self ! i)"
proof (intro conjI impI)
  assume "State hunt \<noteq> Hunt_RUNNING"
  then show "Update_hunt e cfg hunt db = Some (hunt, db)" by (simp add: Update_hunt_def)
next
  assume "\<forall>h\<in>set (hunts self). State h \<noteq> Hunt_RUNNING"
  then have "Update_loop e (config_obj self) (hunts self) db = Some (hunts self, db)"
    by (rule Update_loop_skip)
  then show "Update e self db = Some (GetDB (config_obj self), self, db)"
    by (simp add: Update_def split: option.splits)
next
  assume a: "Update e self db = Some (err, self', db') \<and> i < length (hunts self) \<and>
    State (hunts self ! i) \<noteq> Hunt_RUNNING"
  show "i < length (hunts self')"
  proof (cases "GetDB (config_obj self)")
    case None
    with a obtain hs where l: "Update_loop e (config_obj self) (hunts self) db = Some (hs, db')"
      and s: "self' = self\<lparr>hunts := hs\<rparr>"
      by (auto simp: Update_def split: option.splits)
    from Update_loop_keeps [OF l] a s show ?thesis by simp
  next
    case (Some x)
    with a show ?thesis by (auto simp: Update_def)
  qed
  show "hunts self' ! i = hunts self ! i"
  proof (cases "GetDB (config_obj self)")
    case None
    with a obtain hs where l: "Update_loop e (config_obj self) (hunts self) db = Some (hs, db')"
      and s: "self' = self\<lparr>hunts := hs\<rparr>"
      by (auto simp: Update_def split: option.splits)
    from Update_loop_keeps [OF l] a s show ?thesis by simp
  next
    case (Some x)
    with a show ?thesis by (auto simp: Update_def)
  qed
qed

theorem Update_skips_hunts_not_running_witness:
  "State ex_hunt \<noteq> Hunt_RUNNING \<and>
   Update_hunt ex_env ex_config ex_hunt ex_pending = Some (ex_hunt, ex_pending) \<and>
   Update ex_env ex_mirror ex_pending = Some (None, ex_mirror, ex_pending) \<and>
   map_option (\<lambda>r. hunts (fst (snd r)) ! 1) (Update ex_env ex_mirror2 ex_pending) = Some ex_hunt"
proof -
  have s: "State ex_hunt \<noteq> Hunt_RUNNING" by (simp add: ex_hunt_def empty_Hunt_def)
  have a: "\<forall>h\<in>set (hunts ex_mirror). State h \<noteq> Hunt_RUNNING" using s by (simp add: ex_mirror_def)
  have g: "GetDB (config_obj ex_mirror) = None" by (simp add: ex_mirror_def ex_config_def GetDB_def)
  have t: "map_option (\<lambda>r. length (hunts (fst (snd r)))) (Update ex_env ex_mirror2 ex_pending) = Some 2"
    by code_simp
  then obtain er m d where u: "Update ex_env ex_mirror2 ex_pending = Some (er, m, d)"
    by (cases "Update ex_env ex_mirror2 ex_pending") auto
  have i: "1 < length (hunts ex_mirror2)" "State (hunts ex_mirror2 ! 1) \<noteq> Hunt_RUNNING"
    using s by (simp_all add: ex_mirror2_def)
  have k: "hunts ex_mirror2 ! 1 = ex_hunt" by (simp add: ex_mirror2_def)
  note skip = Update_skips_hunts_not_running
  from skip [of ex_hunt ex_env ex_config ex_pending ex_mirror] s
  have 1: "Update_hunt ex_env ex_config ex_hunt ex_pending = Some (ex_hunt, ex_pending)" by blast
  from skip [of ex_hunt ex_env ex_config ex_pending ex_mirror] a g
  have 2: "Update ex_env ex_mirror ex_pending = Some (None, ex_mirror, ex_pending)" by simp
  from skip [of ex_hunt ex_env ex_config ex_pending ex_mirror2 er m d 1] u i k
  have 3: "hunts m ! 1 = ex_hunt" by simp
  from s 1 2 3 u show ?thesis by simp
qed

subsection \<open>A failed rebuild of the mirror\<close>

lemma GetHunt_empty: "GetHunt e ff cfg hunt_id (Some empty_HuntDispatcher) db =
   Some (Inl (ErrorsNew ''Not found''), Some empty_HuntDispatcher, db)"
  by (simp add: GetHunt_def GetHuntDispatcher_def empty_HuntDispatcher_def)

lemma ListHunts_empty: "ListHunts e cfg off cnt (Some empty_HuntDispatcher) db =
   Some (Inr [], Some empty_HuntDispatcher, db)"
  by (simp add: ListHunts_def GetHuntDispatcher_def empty_HuntDispatcher_def GetApplicableHunts_def)

text \<open>
  Claim C9.  When the rebuild that \<^verbatim>\<open>Refresh\<close> runs fails, \<^verbatim>\<open>Refresh\<close> publishes
  the empty mirror in place of whatever was published before.  A reader of that mirror
  gets no error from \<^verbatim>\<open>GetHuntDispatcher\<close>, an empty list from \<^verbatim>\<open>ListHunts\<close>
  and \<^verbatim>\<open>Not found\<close> from \<^verbatim>\<open>GetHunt\<close>: the error of the rebuild reaches none of them.
\<close>

theorem Refresh_failure_publishes_empty_mirror:
  "NewHuntDispatcher e cfg db = Some (Inl err, db') \<Longrightarrow>
     Refresh e cfg c db = Some (Some empty_HuntDispatcher, db') \<and>
     hunts empty_HuntDispatcher = [] \<and>
     GetHuntDispatcher e2 cfg2 (Some empty_HuntDispatcher) db2 =
       Some (Inr empty_HuntDispatcher, Some empty_HuntDispatcher, db2) \<and>
     ListHunts e2 cfg2 off cnt (Some empty_HuntDispatcher) db2 =
       Some (Inr [], Some empty_HuntDispatcher, db2) \<and>
     GetHunt e2 ff cfg2 hunt_id (Some empty_HuntDispatcher) db2 =
       Some (Inl (ErrorsNew ''Not found''), Some empty_HuntDispatcher, db2)"
  by (simp add: Refresh_def GetHunt_empty ListHunts_empty)
     (simp add: GetHuntDispatcher_def empty_HuntDispatcher_def)

theorem Refresh_failure_publishes_empty_mirror_witness:
  "NewHuntDispatcher ex_env ex_config ex_store_down =
     Some (Inl (DatastoreError Call_ListChildren ''hunts''),
           issue (OpList ''hunts'' 0 100) ex_store_down) \<and>
   Refresh ex_env ex_config (Some ex_mirror) ex_store_down =
     Some (Some empty_HuntDispatcher, issue (OpList ''hunts'' 0 100) ex_store_down) \<and>
   ListHunts ex_env ex_config 0 10 (Some empty_HuntDispatcher) ex_store_down =
     Some (Inr [], Some empty_HuntDispatcher, ex_store_down)"
proof -
  have f: "NewHuntDispatcher ex_env ex_config ex_store_down =
     Some (Inl (DatastoreError Call_ListChildren ''hunts''),
           issue (OpList ''hunts'' 0 100) ex_store_down)"
    by (simp add: NewHuntDispatcher_def ex_config_def GetDB_def ListChildren_def
        ex_store_down_def HUNTS_URN_def)
  from Refresh_failure_publishes_empty_mirror
    [OF f, of "Some ex_mirror" ex_env ex_config ex_store_down 0 10]
  show ?thesis using f by simp
qed

subsection \<open>\<^verbatim>\<open>ListHunts\<close>\<close>

lemma idx_less:
  assumes "idx < 2 ^ 64"
  shows "((of_nat idx :: uint64) < offset) = (idx < unat offset)"
  using assms by (simp add: word_less_nat_alt unat_of_nat)

lemma idx_ge:
  assumes "idx < 2 ^ 64"
  shows "(offset + count \<le> (of_nat idx :: uint64)) = ((unat offset + unat count) mod 2 ^ 64 \<le> idx)"
  using assms by (simp add: word_le_nat_alt unat_of_nat unat_word_ariths)

lemma ListHunts_loop_plain:
  assumes "unat offset + unat count < 2 ^ 64" and "idx + length hs \<le> 2 ^ 64"
  shows "ListHunts_loop offset count idx hs items =
     items @ take (unat offset + unat count - max idx (unat offset)) (drop (unat offset - idx) hs)"
  using assms(2)
proof (induction hs arbitrary: idx items)
  case Nil
  show ?case by simp
next
  case (Cons h rest)
  then have i: "idx < 2 ^ 64" and r: "Suc idx + length rest \<le> 2 ^ 64" by simp_all
  note ih = Cons.IH [OF r]
  have m: "(unat offset + unat count) mod 2 ^ 64 = unat offset + unat count"
    using assms(1) by simp
  show ?case
  proof (cases "idx < unat offset")
    case True
    then have "unat offset - idx = Suc (unat offset - Suc idx)" by simp
    moreover have "max idx (unat offset) = max (Suc idx) (unat offset)" using True by simp
    ultimately show ?thesis using True ih [of items] by (simp add: idx_less [OF i])
  next
    case False
    show ?thesis
    proof (cases "unat offset + unat count \<le> idx")
      case True
      with False m show ?thesis by (simp add: idx_less [OF i] idx_ge [OF i])
    next
      case b: False
      then have "unat offset + unat count - idx = Suc (unat offset + unat count - Suc idx)" by simp
      with False b m ih [of "items @ [h]"] show ?thesis
        by (simp add: idx_less [OF i] idx_ge [OF i] max_def)
    qed
  qed
qed

lemma ListHunts_loop_wrap:
  assumes "2 ^ 64 \<le> unat offset + unat count" and "idx + length hs \<le> 2 ^ 64"
  shows "ListHunts_loop offset count idx hs items = items"
  using assms(2)
proof (induction hs arbitrary: idx)
  case Nil
  show ?case by simp
next
  case (Cons h rest)
  then have i: "idx < 2 ^ 64" and r: "Suc idx + length rest \<le> 2 ^ 64" by simp_all
  have c: "unat count < 2 ^ 64" using unsigned_less [of count] by simp
  have o: "unat offset < 2 ^ 64" using unsigned_less [of offset] by simp
  have "(unat offset + unat count) mod 2 ^ 64 = unat offset + unat count - 2 ^ 64"
    using assms(1) c o by (simp add: mod_if)
  then have m: "(unat offset + unat count) mod 2 ^ 64 < unat offset" using c assms(1) by simp
  show ?case
  proof (cases "idx < unat offset")
    case True
    with Cons.IH [OF r] show ?thesis by (simp add: idx_less [OF i])
  next
    case False
    with m have "(unat offset + unat count) mod 2 ^ 64 \<le> idx" by simp
    with False show ?thesis by (simp add: idx_less [OF i] idx_ge [OF i])
  qed
qed

lemma GetApplicableHunts_zero:
  "GetApplicableHunts d 0 = filter (\<lambda>h. CreateTime h \<noteq> 0) (hunts d)"
  by (simp add: GetApplicableHunts_def word_neq_0_conv)

text \<open>
  Claim C8, as the code has it.  \<^verbatim>\<open>ListHunts\<close> reads the mirror \<^verbatim>\<open>GetHuntDispatcher\<close>
  gives it and returns, in the mirror's order, the hunts whose creation time is not
  zero (the watermark is the constant 0 and the comparison is strict): the first
  \<open>count\<close> of them from index \<open>offset\<close> on, or none at all when \<open>offset + count\<close> does
  not fit \<^verbatim>\<open>uint64\<close>.  The mirror's length is below \<open>2^64\<close>, as every Go slice's is.
\<close>

theorem ListHunts_pagination:
  assumes "GetHuntDispatcher e cfg c db = Some (Inr d, c', db')"
    and "length (hunts d) < 2 ^ 64"
  shows "ListHunts e cfg offset count c db =
     Some (Inr (if unat offset + unat count < 2 ^ 64
                then take (unat count) (drop (unat offset)
                       (filter (\<lambda>h. CreateTime h \<noteq> 0) (hunts d)))
                else []), c', db')"
proof -
  let ?apps = "filter (\<lambda>h. CreateTime h \<noteq> 0) (hunts d)"
  have "length ?apps \<le> length (hunts d)" by (rule length_filter_le)
  also have "\<dots> \<le> 2 ^ 64" using assms(2) by simp
  finally have len: "0 + length ?apps \<le> 2 ^ 64" by simp
  have "ListHunts_loop offset count 0 ?apps [] =
      (if unat offset + unat count < 2 ^ 64 then take (unat count) (drop (unat offset) ?apps) else [])"
  proof (cases "unat offset + unat count < 2 ^ 64")
    case True
    from ListHunts_loop_plain [OF True len, of "[]"] True show ?thesis by simp
  next
    case False
    then have "2 ^ 64 \<le> unat offset + unat count" by simp
    from ListHunts_loop_wrap [OF this len, of "[]"] False show ?thesis by simp
  qed
  then show ?thesis using assms(1) by (simp add: ListHunts_def GetApplicableHunts_zero)
qed

theorem ListHunts_pagination_witness:
  "GetHuntDispatcher ex_env ex_config (Some ex_mirror2) ex_store =
     Some (Inr ex_mirror2, Some ex_mirror2, ex_store) \<and>
   ListHunts ex_env ex_config 1 5 (Some ex_mirror2) ex_store =
     Some (Inr [ex_hunt], Some ex_mirror2, ex_store)"
proof -
  have d: "GetHuntDispatcher ex_env ex_config (Some ex_mirror2) ex_store =
     Some (Inr ex_mirror2, Some ex_mirror2, ex_store)" by (simp add: GetHuntDispatcher_def)
  have l: "length (hunts ex_mirror2) < 2 ^ 64" by (simp add: ex_mirror2_def)
  from ListHunts_pagination [OF d l, of 1 5] d show ?thesis
    by (simp add: ex_mirror2_def ex_running_def ex_hunt_def empty_Hunt_def)
qed

text \<open>
  Claim C8 as stated fails in its last part: a mirrored hunt whose creation time is 0
  is not eligible under the watermark 0, and is never listed.
\<close>

theorem ListHunts_zero_time_counterexample:
  "ex_zero \<in> set (hunts ex_mirror_zero) \<and>
   GetApplicableHunts ex_mirror_zero 0 = [] \<and>
   ListHunts ex_env ex_config 0 10 (Some ex_mirror_zero) ex_store =
     Some (Inr [], Some ex_mirror_zero, ex_store)"
  by (simp add: ListHunts_def GetHuntDispatcher_def GetApplicableHunts_def ex_mirror_zero_def
      ex_zero_def)

subsection \<open>\<^verbatim>\<open>GetHunt\<close>\<close>









text \<open>It fails also for a mirrored hunt whose creation time is zero: its component
  is not found.\<close>

lemma GetHunt_base_of_zero_time:
  "ex_zero \<in> set (hunts ex_mirror_zero) \<and>
   map_option fst (GetHunt ex_env ''FileFinder'' ex_config (path_Base (HuntId ex_zero))
                     (Some ex_mirror_zero) ex_store)
     = Some (Inl (ErrorsNew ''Not found''))"
  by code_simp

subsection \<open>\<^verbatim>\<open>GetHuntInfos\<close> and \<^verbatim>\<open>GetHuntResults\<close>\<close>

lemma ListChildren_empty:
  "urn \<notin> set (list_fail db) \<Longrightarrow> children db urn = [] \<Longrightarrow>
   ListChildren db urn offset limit = (Inr [], issue (OpList urn offset limit) db)"
  by (simp add: ListChildren_def)

text \<open>
  Claim C7, as the code has it.  Both functions ask for the datastore first.  With a
  datastore: for a hunt id that does not start with \<^verbatim>\<open>aff4:/hunts/H.\<close> both return
  the error \<^verbatim>\<open>Invalid hunt id\<close> and leave the store as it was, its log of calls
  included, so no list or read was issued; for an id with the prefix whose results
  queue lists as empty, both return an empty result after that one listing.  Without
  a datastore both return the error of \<^verbatim>\<open>GetDB\<close>, whatever the id, again with no call
  issued.
\<close>

theorem GetHuntResults_id_check:
  "(GetDB cfg = None \<and> \<not> strings_HasPrefix hunt_id ''aff4:/hunts/H.'' \<longrightarrow>
      GetHuntInfos cfg hunt_id offset count db = (Inl (ErrorsNew ''Invalid hunt id''), db) \<and>
      GetHuntResults e cfg hunt_id offset count db =
        Some (Inl (ErrorsNew ''Invalid hunt id''), db)) \<and>
   (\<forall>err. GetDB cfg = Some err \<longrightarrow>
      GetHuntInfos cfg hunt_id offset count db = (Inl err, db) \<and>
      GetHuntResults e cfg hunt_id offset count db = Some (Inl err, db)) \<and>
   (GetDB cfg = None \<and> strings_HasPrefix hunt_id ''aff4:/hunts/H.'' \<and>
    hunt_id @ ''/results'' \<notin> set (list_fail db) \<and> children db (hunt_id @ ''/results'') = [] \<longrightarrow>
      GetHuntInfos cfg hunt_id offset count db =
        (Inr [], issue (OpList (hunt_id @ ''/results'') offset (if count = 0 then 50 else count)) db) \<and>
      GetHuntResults e cfg hunt_id offset count db =
        Some (Inr [], issue (OpList (hunt_id @ ''/results'') 0 50) db))"
proof (intro conjI allI impI)
  assume a: "GetDB cfg = None \<and> \<not> strings_HasPrefix hunt_id ''aff4:/hunts/H.''"
  then show "GetHuntInfos cfg hunt_id offset count db = (Inl (ErrorsNew ''Invalid hunt id''), db)"
    by (simp add: GetHuntInfos_def)
  from a show "GetHuntResults e cfg hunt_id offset count db =
        Some (Inl (ErrorsNew ''Invalid hunt id''), db)"
    by (simp add: GetHuntResults_def)
next
  fix err assume a: "GetDB cfg = Some err"
  then show "GetHuntInfos cfg hunt_id offset count db = (Inl err, db)"
    by (simp add: GetHuntInfos_def)
  from a show "GetHuntResults e cfg hunt_id offset count db = Some (Inl err, db)"
    by (simp add: GetHuntResults_def)
next
  assume a: "GetDB cfg = None \<and> strings_HasPrefix hunt_id ''aff4:/hunts/H.'' \<and>
    hunt_id @ ''/results'' \<notin> set (list_fail db) \<and> children db (hunt_id @ ''/results'') = []"
  then have l: "\<And>off lim. ListChildren db (hunt_id @ ''/results'') off lim =
      (Inr [], issue (OpList (hunt_id @ ''/results'') off lim) db)"
    by (simp add: ListChildren_empty)
  from a show "GetHuntInfos cfg hunt_id offset count db =
        (Inr [], issue (OpList (hunt_id @ ''/results'') offset (if count = 0 then 50 else count)) db)"
    by (simp add: GetHuntInfos_def l)
  have "GetHuntResults_pages e hunt_id offset (if count = 0 then 50 else count) 0 0 [] db =
      Some (Inr [], issue (OpList (hunt_id @ ''/results'') 0 50) db)"
    by (subst GetHuntResults_pages.simps) (simp add: l)
  with a show "GetHuntResults e cfg hunt_id offset count db =
        Some (Inr [], issue (OpList (hunt_id @ ''/results'') 0 50) db)"
    by (simp add: GetHuntResults_def)
qed

theorem GetHuntResults_id_check_witness:
  "GetHuntInfos ex_config ''not-a-hunt-id'' 0 0 ex_store =
     (Inl (ErrorsNew ''Invalid hunt id''), ex_store) \<and>
   GetHuntResults ex_env ex_config ''not-a-hunt-id'' 0 0 ex_store =
     Some (Inl (ErrorsNew ''Invalid hunt id''), ex_store) \<and>
   GetHuntInfos ex_config_nodb ''aff4:/hunts/H.ABCDEF0123456789'' 0 0 ex_store =
     (Inl GetDBError, ex_store) \<and>
   GetHuntInfos ex_config ''aff4:/hunts/H.ABCDEF0123456789'' 0 0 ex_store =
     (Inr [], issue (OpList ''aff4:/hunts/H.ABCDEF0123456789/results'' 0 50) ex_store) \<and>
   GetHuntResults ex_env ex_config ''aff4:/hunts/H.ABCDEF0123456789'' 0 0 ex_store =
     Some (Inr [], issue (OpList ''aff4:/hunts/H.ABCDEF0123456789/results'' 0 50) ex_store)"
proof -
  have g: "GetDB ex_config = None" "GetDB ex_config_nodb = Some GetDBError"
    by (simp_all add: GetDB_def ex_config_def ex_config_nodb_def)
  have p: "\<not> strings_HasPrefix ''not-a-hunt-id'' ''aff4:/hunts/H.''"
    "strings_HasPrefix ''aff4:/hunts/H.ABCDEF0123456789'' ''aff4:/hunts/H.''"
    by (simp_all add: strings_HasPrefix_def)
  have q: "''aff4:/hunts/H.ABCDEF0123456789'' @ ''/results'' \<notin> set (list_fail ex_store)"
    "children ex_store (''aff4:/hunts/H.ABCDEF0123456789'' @ ''/results'') = []"
    by (simp_all add: ex_store_def children_def is_child_def)
  note t = GetHuntResults_id_check
  from t [of ex_config "''not-a-hunt-id''" 0 0 ex_store ex_env] g p
  have 1: "GetHuntInfos ex_config ''not-a-hunt-id'' 0 0 ex_store =
     (Inl (ErrorsNew ''Invalid hunt id''), ex_store) \<and>
   GetHuntResults ex_env ex_config ''not-a-hunt-id'' 0 0 ex_store =
     Some (Inl (ErrorsNew ''Invalid hunt id''), ex_store)" by blast
  from t [of ex_config_nodb "''aff4:/hunts/H.ABCDEF0123456789''" 0 0 ex_store ex_env] g
  have 2: "GetHuntInfos ex_config_nodb ''aff4:/hunts/H.ABCDEF0123456789'' 0 0 ex_store =
     (Inl GetDBError, ex_store)" by blast
  from t [of ex_config "''aff4:/hunts/H.ABCDEF0123456789''" 0 0 ex_store ex_env] g p q
  have 3: "GetHuntInfos ex_config ''aff4:/hunts/H.ABCDEF0123456789'' 0 0 ex_store =
     (Inr [], issue (OpList ''aff4:/hunts/H.ABCDEF0123456789/results'' 0 50) ex_store) \<and>
   GetHuntResults ex_env ex_config ''aff4:/hunts/H.ABCDEF0123456789'' 0 0 ex_store =
     Some (Inr [], issue (OpList ''aff4:/hunts/H.ABCDEF0123456789/results'' 0 50) ex_store)"
    by simp
  from 1 2 3 show ?thesis by simp
qed

text \<open>
  Claim C7 as stated fails when there is no datastore: for an id without the prefix the
  error returned is that of \<^verbatim>\<open>GetDB\<close>, not \<^verbatim>\<open>Invalid hunt id\<close>.
\<close>

theorem GetHuntResults_no_datastore_counterexample:
  "\<not> strings_HasPrefix ''not-a-hunt-id'' ''aff4:/hunts/H.'' \<and>
   GetHuntInfos ex_config_nodb ''not-a-hunt-id'' 0 0 ex_store = (Inl GetDBError, ex_store) \<and>
   GetHuntResults ex_env ex_config_nodb ''not-a-hunt-id'' 0 0 ex_store =
     Some (Inl GetDBError, ex_store)"
  by (simp add: strings_HasPrefix_def GetHuntInfos_def GetHuntResults_def GetDB_def
      ex_config_nodb_def)

end
